(* ===== verification/Icon_Prelude.thy ===== *)
theory Icon_Prelude
  imports Main "HOL-Library.Word"
begin

text \<open>
  Shared vocabulary of the icon-generator development: the byte type of a colour
  channel, the exceptions the Python script and the imaging library can raise, a
  named collection for the rendering facts the component theories share, and the
  generic lemmas on nested lists (a raster is a list of rows) that the drawing
  proofs use.
\<close>

section \<open>Types of the model\<close>

text \<open>A colour channel of an \<open>RGBA\<close> raster is an unsigned byte (\<open>UINT8\<close> in the library).\<close>

type_synonym byte = "8 word"

text \<open>
  Python exceptions that reach or leave \<open>create_icon\<close>: \<open>ValueError\<close> from
  \<open>Image.new\<close> and \<open>ImageFont.truetype\<close> on a bad size, \<open>IndexError\<close> from \<open>getpixel\<close> out of range, \<open>OSError\<close> from opening a
  font file or writing the PNG, and any other exception a font loader may raise (the
  bare \<open>except:\<close> of the script catches all of them).
\<close>

datatype exc = ValueError string | OSError string | IndexError string | OtherError string

named_theorems raster_simps \<open>equations that evaluate the raster operations\<close>

section \<open>Nested lists\<close>

definition rectangular :: "nat \<Rightarrow> nat \<Rightarrow> 'a list list \<Rightarrow> bool" where
  "rectangular w h rows \<longleftrightarrow> length rows = h \<and> (\<forall>r \<in> set rows. length r = w)"

lemma rectangular_replicate [simp]: "rectangular w h (replicate h (replicate w x))"
  by (simp add: rectangular_def)

lemma rectangular_update:
  "rectangular w h rows \<Longrightarrow> length r = w \<Longrightarrow> rectangular w h (rows[i := r])"
  by (auto simp: rectangular_def dest: set_update_subset_insert [THEN subsetD])

lemma rectangular_nth_length:
  "rectangular w h rows \<Longrightarrow> i < h \<Longrightarrow> length (rows ! i) = w"
  by (simp add: rectangular_def)

end
