(* ===== verification/Raster.thy ===== *)
theory Raster
  imports Icon_Prelude
begin

text \<open>
  The raster buffer of the imaging library (Pillow) as the script uses it: an
  \<open>RGBA\<close> image of a width and a height, allocated and filled by \<open>Image.new\<close>
  (\<open>create_icons.py\<close> line 11), and the one drawing primitive that
  \<open>ImageDraw.text\<close> reduces to, \<open>draw_bitmap\<close>: a coverage mask of bytes blended
  into the image at an integer position, clipped to the image
  (\<open>ImagingFill2\<close> and \<open>fill_mask_L\<close> of the library's \<open>Paste.c\<close>, with its
  \<open>BLEND\<close> and \<open>DIV255\<close> macros). The library is not code of the repository; the
  definitions follow its documented behaviour.
\<close>

section \<open>Pixels and images\<close>

record rgba =
  ch_r :: byte
  ch_g :: byte
  ch_b :: byte
  ch_a :: byte

text \<open>The pixel rows of an image, row \<open>y\<close> holding the pixels \<open>(0, y) .. (width - 1, y)\<close>.\<close>

record image =
  im_width :: nat
  im_height :: nat
  im_px :: "rgba list list"

definition wf_image :: "image \<Rightarrow> bool" where
  "wf_image img \<longleftrightarrow> rectangular (im_width img) (im_height img) (im_px img)"

text \<open>\<open>Image.new(mode, (w, h), color)\<close>: \<open>_check_size\<close> rejects a negative side.\<close>

definition image_new :: "int \<Rightarrow> int \<Rightarrow> rgba \<Rightarrow> exc + image" where
  "image_new w h c =
     (if w < 0 \<or> h < 0 then Inl (ValueError ''Width and height must be >= 0'')
      else Inr \<lparr>im_width = nat w, im_height = nat h,
                im_px = replicate (nat h) (replicate (nat w) c)\<rparr>)"

text \<open>\<open>Image.getpixel((x, y))\<close>: an index outside the image raises \<open>IndexError\<close>.\<close>

definition getpixel :: "image \<Rightarrow> int \<Rightarrow> int \<Rightarrow> exc + rgba" where
  "getpixel img x y =
     (if 0 \<le> x \<and> x < int (im_width img) \<and> 0 \<le> y \<and> y < int (im_height img)
      then Inr (im_px img ! nat y ! nat x)
      else Inl (IndexError ''image index out of range''))"

section \<open>Blending a coverage mask\<close>

text \<open>
  \<open>DIV255(a, tmp) = (tmp = a + 128, ((tmp >> 8) + tmp) >> 8)\<close>: division by 255
  rounded to nearest, without a division.
\<close>

definition div255 :: "nat \<Rightarrow> nat" where
  "div255 a = (let t = a + 128 in drop_bit 8 (drop_bit 8 t + t))"

text \<open>
  \<open>BLEND(mask, in1, in2, tmp) = DIV255(in1 * (255 - mask) + in2 * mask, tmp)\<close>,
  computed in C \<open>int\<close> and stored back into a \<open>UINT8\<close> channel (the store keeps the
  low eight bits, written here as \<open>word_of_nat\<close>).
\<close>

definition blend_ch :: "byte \<Rightarrow> byte \<Rightarrow> byte \<Rightarrow> byte" where
  "blend_ch m a b = word_of_nat (div255 (unat a * (255 - unat m) + unat b * unat m))"

text \<open>\<open>fill_mask_L\<close> on an \<open>RGBA\<close> image blends each of the four channels with the mask value.\<close>

definition blend_px :: "byte \<Rightarrow> rgba \<Rightarrow> rgba \<Rightarrow> rgba" where
  "blend_px m p ink =
     \<lparr>ch_r = blend_ch m (ch_r p) (ch_r ink), ch_g = blend_ch m (ch_g p) (ch_g ink),
      ch_b = blend_ch m (ch_b p) (ch_b ink), ch_a = blend_ch m (ch_a p) (ch_a ink)\<rparr>"

text \<open>
  One mask row placed with its first value at column \<open>x\<close>; columns outside the row are
  clipped away, as \<open>ImagingFill2\<close> clips the box to the image before blending.
\<close>

fun fill_row :: "rgba list \<Rightarrow> int \<Rightarrow> byte list \<Rightarrow> rgba \<Rightarrow> rgba list" where
  "fill_row row x [] ink = row"
| "fill_row row x (m # ms) ink =
     fill_row (if 0 \<le> x \<and> x < int (length row) then row[nat x := blend_px m (row ! nat x) ink] else row)
       (x + 1) ms ink"

fun fill_rows :: "rgba list list \<Rightarrow> int \<Rightarrow> int \<Rightarrow> byte list list \<Rightarrow> rgba \<Rightarrow> rgba list list" where
  "fill_rows rows x y [] ink = rows"
| "fill_rows rows x y (mr # mrs) ink =
     fill_rows (if 0 \<le> y \<and> y < int (length rows) then rows[nat y := fill_row (rows ! nat y) x mr ink] else rows)
       x (y + 1) mrs ink"

text \<open>\<open>ImagingDrawBitmap(im, x0, y0, bitmap, ink)\<close> = \<open>ImagingFill2(im, ink, bitmap, x0, y0, ...)\<close>.\<close>

definition draw_bitmap :: "image \<Rightarrow> int \<Rightarrow> int \<Rightarrow> byte list list \<Rightarrow> rgba \<Rightarrow> image" where
  "draw_bitmap img x y bitmap ink = img\<lparr>im_px := fill_rows (im_px img) x y bitmap ink\<rparr>"


section \<open>The mask blend as a per-pixel specification\<close>

text \<open>
  What \<open>draw_bitmap\<close> promises, pixel by pixel: the pixel \<open>(i, j)\<close> of the image is
  blended with the mask value at \<open>(i - x, j - y)\<close> when the mask has one there, and is
  left alone otherwise. \<open>draw_spec\<close> is this image; \<open>draw_bitmap_refines\<close> shows that
  the row-by-row loops compute it.
\<close>

definition cover :: "byte list list \<Rightarrow> int \<Rightarrow> int \<Rightarrow> byte option" where
  "cover bm i j =
     (if 0 \<le> j \<and> j < int (length bm) \<and> 0 \<le> i \<and> i < int (length (bm ! nat j))
      then Some (bm ! nat j ! nat i) else None)"

definition paint :: "byte option \<Rightarrow> rgba \<Rightarrow> rgba \<Rightarrow> rgba" where
  "paint c p ink = (case c of None \<Rightarrow> p | Some m \<Rightarrow> blend_px m p ink)"

definition draw_spec :: "image \<Rightarrow> int \<Rightarrow> int \<Rightarrow> byte list list \<Rightarrow> rgba \<Rightarrow> image" where
  "draw_spec img x y bm ink =
     img\<lparr>im_px := map (\<lambda>j. map (\<lambda>i. paint (cover bm (int i - x) (int j - y)) (im_px img ! j ! i) ink)
                             [0..<im_width img]) [0..<im_height img]\<rparr>"

text \<open>A property of every pixel of an image (the tests read pixels with \<open>getpixel\<close>).\<close>

definition all_pixels :: "(rgba \<Rightarrow> bool) \<Rightarrow> image \<Rightarrow> bool" where
  "all_pixels P img \<longleftrightarrow> (\<forall>row \<in> set (im_px img). \<forall>p \<in> set row. P p)"

section \<open>Pixels of an image\<close>

declare paint_def [raster_simps] cover_def [raster_simps] blend_px_def [raster_simps]

lemma all_pixels_iff:
  "wf_image img \<Longrightarrow>
   all_pixels P img \<longleftrightarrow> (\<forall>j < im_height img. \<forall>i < im_width img. P (im_px img ! j ! i))"
proof
  assume wf: "wf_image img" and all: "all_pixels P img"
  show "\<forall>j < im_height img. \<forall>i < im_width img. P (im_px img ! j ! i)"
  proof (intro allI impI)
    fix j i assume "j < im_height img" "i < im_width img"
    with wf have "im_px img ! j \<in> set (im_px img)" "i < length (im_px img ! j)"
      by (simp_all add: wf_image_def rectangular_def)
    with all show "P (im_px img ! j ! i)" by (simp add: all_pixels_def)
  qed
next
  assume wf: "wf_image img" and px: "\<forall>j < im_height img. \<forall>i < im_width img. P (im_px img ! j ! i)"
  with wf show "all_pixels P img"
    by (auto simp: all_pixels_def wf_image_def rectangular_def in_set_conv_nth)
qed

section \<open>\<open>DIV255\<close> and \<open>BLEND\<close>\<close>

lemma div255_div: "div255 a = ((a + 128) div 256 + (a + 128)) div 256"
  by (simp add: div255_def Let_def drop_bit_eq_div)

lemma div255_round:
  assumes "a \<le> 255 * 255"
  shows "div255 a = (a + 127) div 255"
proof -
  define q where "q = (a + 127) div 255"
  have lo: "255 * q \<le> a + 127" and hi: "a + 127 < 255 * Suc q"
    unfolding q_def by (simp_all add: mult.commute)
  have "q \<le> 255" using assms unfolding q_def by simp
  show ?thesis
  proof (cases "256 * q \<le> a + 128")
    case True
    then have "(a + 128) div 256 = q" using hi by (intro div_nat_eqI) simp_all
    moreover have "(q + (a + 128)) div 256 = q" using True hi \<open>q \<le> 255\<close> by (intro div_nat_eqI) simp_all
    ultimately show ?thesis by (simp add: div255_div q_def)
  next
    case False
    then have "0 < q" by simp
    then have "(a + 128) div 256 = q - 1" using False lo \<open>q \<le> 255\<close> by (intro div_nat_eqI) simp_all
    moreover have "(q - 1 + (a + 128)) div 256 = q" using False lo \<open>q \<le> 255\<close> \<open>0 < q\<close> by (intro div_nat_eqI) simp_all
    ultimately show ?thesis by (simp add: div255_div q_def)
  qed
qed

lemma div255_mono: "a \<le> b \<Longrightarrow> div255 a \<le> div255 b"
  unfolding div255_div by (intro div_le_mono add_mono) simp_all

lemma div255_mult_255: "k \<le> 255 \<Longrightarrow> div255 (255 * k) = k"
  by (simp add: div255_round)

lemma blend_sum_bounds:
  fixes a b m :: nat
  assumes "m \<le> 255"
  shows "255 * min a b \<le> a * (255 - m) + b * m" and "a * (255 - m) + b * m \<le> 255 * max a b"
proof -
  have "min a b * (255 - m) + min a b * m \<le> a * (255 - m) + b * m"
    by (intro add_mono mult_right_mono) simp_all
  moreover have "min a b * (255 - m) + min a b * m = 255 * min a b"
    using assms by (simp add: algebra_simps flip: add_mult_distrib2)
  ultimately show "255 * min a b \<le> a * (255 - m) + b * m" by simp
  have "a * (255 - m) + b * m \<le> max a b * (255 - m) + max a b * m"
    by (intro add_mono mult_right_mono) simp_all
  moreover have "max a b * (255 - m) + max a b * m = 255 * max a b"
    using assms by (simp add: algebra_simps flip: add_mult_distrib2)
  ultimately show "a * (255 - m) + b * m \<le> 255 * max a b" by simp
qed

lemma unat_byte_le: "unat (w :: byte) \<le> 255"
proof -
  have "unat w < 2 ^ LENGTH(8)" by (rule unsigned_less)
  then show ?thesis by simp
qed

lemma blend_div255_between:
  fixes m a b :: byte
  defines "s \<equiv> unat a * (255 - unat m) + unat b * unat m"
  shows "min (unat a) (unat b) \<le> div255 s \<and> div255 s \<le> max (unat a) (unat b)"
proof -
  have "div255 (255 * min (unat a) (unat b)) \<le> div255 s"
    unfolding s_def by (intro div255_mono blend_sum_bounds unat_byte_le)
  moreover have "div255 s \<le> div255 (255 * max (unat a) (unat b))"
    unfolding s_def by (intro div255_mono blend_sum_bounds unat_byte_le)
  moreover have "min (unat a) (unat b) \<le> 255" "max (unat a) (unat b) \<le> 255"
    using unat_byte_le [of a] unat_byte_le [of b] by simp_all
  ultimately show ?thesis by (simp add: div255_mult_255)
qed

lemma blend_sum_le: "unat (a :: byte) * (255 - unat (m :: byte)) + unat (b :: byte) * unat m \<le> 255 * 255"
proof -
  have "unat a * (255 - unat m) + unat b * unat m \<le> 255 * max (unat a) (unat b)"
    using unat_byte_le [of m] by (rule blend_sum_bounds)
  also have "\<dots> \<le> 255 * 255" using unat_byte_le [of a] unat_byte_le [of b] by simp
  finally show ?thesis .
qed

lemma unat_blend_ch:
  "unat (blend_ch m a b) = div255 (unat a * (255 - unat m) + unat b * unat m)"
proof -
  have "div255 (unat a * (255 - unat m) + unat b * unat m) \<le> 255"
    using blend_div255_between [where m = m and a = a and b = b] unat_byte_le [of a] unat_byte_le [of b] by linarith
  then show ?thesis unfolding blend_ch_def by (simp add: unat_of_nat)
qed

lemma blend_ch_between:
  "min (unat a) (unat b) \<le> unat (blend_ch m a b) \<and> unat (blend_ch m a b) \<le> max (unat a) (unat b)"
  unfolding unat_blend_ch by (rule blend_div255_between)

text \<open>
  \<open>BLEND\<close> with the shift-and-add \<open>DIV255\<close> is the exact weighted mean of the two
  channel values, rounded to the nearest integer, and the store into the \<open>UINT8\<close>
  channel loses nothing.
\<close>

lemma blend_ch_rounds:
  "unat (blend_ch m a b) = (unat a * (255 - unat m) + unat b * unat m + 127) div 255"
  unfolding unat_blend_ch using blend_sum_le [of a m b] by (rule div255_round)

lemma blend_ch_same [raster_simps]: "blend_ch m c c = c"
  using blend_ch_between [of c c m] by (simp add: word_unat_eq_iff)

lemma blend_ch_full [raster_simps]: "blend_ch 255 a b = b"
  by (simp add: blend_ch_def div255_mult_255 unat_byte_le mult.commute [of _ 255])

section \<open>The blending loops\<close>

lemma length_fill_row [simp]: "length (fill_row row x ms ink) = length row"
  by (induction ms arbitrary: row x) simp_all

lemma length_fill_rows [simp]: "length (fill_rows rows x y bm ink) = length rows"
  by (induction bm arbitrary: rows y) simp_all

lemma fill_row_nth:
  "i < length row \<Longrightarrow>
   fill_row row x ms ink ! i =
     (if x \<le> int i \<and> int i < x + int (length ms) then blend_px (ms ! nat (int i - x)) (row ! i) ink
      else row ! i)"
proof (induction ms arbitrary: row x)
  case Nil
  then show ?case by auto
next
  case (Cons m ms)
  let ?row' = "if 0 \<le> x \<and> x < int (length row) then row[nat x := blend_px m (row ! nat x) ink] else row"
  have len: "i < length ?row'" using Cons.prems by simp
  have at: "?row' ! i = (if int i = x then blend_px m (row ! i) ink else row ! i)"
  proof (cases "int i = x")
    case True
    then have eq: "x = int i" by simp
    show ?thesis using Cons.prems by (simp add: eq)
  next
    case False
    then have "0 \<le> x \<Longrightarrow> nat x \<noteq> i" by auto
    with False show ?thesis by auto
  qed
  have "fill_row row x (m # ms) ink ! i = fill_row ?row' (x + 1) ms ink ! i" by simp
  also have "\<dots> = (if x + 1 \<le> int i \<and> int i < x + 1 + int (length ms)
                   then blend_px (ms ! nat (int i - (x + 1))) (?row' ! i) ink else ?row' ! i)"
    using len by (rule Cons.IH)
  also have "\<dots> = (if x \<le> int i \<and> int i < x + int (length (m # ms))
                   then blend_px ((m # ms) ! nat (int i - x)) (row ! i) ink else row ! i)"
  proof (cases "int i = x")
    case True
    show ?thesis by (subst at, simp add: True)
  next
    case False
    then have "x + 1 \<le> int i \<longleftrightarrow> x \<le> int i" by arith
    moreover have "x + 1 \<le> int i \<Longrightarrow> (m # ms) ! nat (int i - x) = ms ! nat (int i - (x + 1))"
    proof -
      assume "x + 1 \<le> int i"
      then have "nat (int i - x) = Suc (nat (int i - (x + 1)))" by arith
      then show ?thesis by simp
    qed
    ultimately show ?thesis using False by (auto simp: at)
  qed
  finally show ?case .
qed

lemma fill_rows_nth:
  "j < length rows \<Longrightarrow>
   fill_rows rows x y bm ink ! j =
     (if y \<le> int j \<and> int j < y + int (length bm) then fill_row (rows ! j) x (bm ! nat (int j - y)) ink
      else rows ! j)"
proof (induction bm arbitrary: rows y)
  case Nil
  then show ?case by auto
next
  case (Cons mr bm)
  let ?rows' = "if 0 \<le> y \<and> y < int (length rows) then rows[nat y := fill_row (rows ! nat y) x mr ink] else rows"
  have len: "j < length ?rows'" using Cons.prems by simp
  have at: "?rows' ! j = (if int j = y then fill_row (rows ! j) x mr ink else rows ! j)"
  proof (cases "int j = y")
    case True
    then have eq: "y = int j" by simp
    show ?thesis using Cons.prems by (simp add: eq)
  next
    case False
    then have "0 \<le> y \<Longrightarrow> nat y \<noteq> j" by auto
    with False show ?thesis by auto
  qed
  have "fill_rows rows x y (mr # bm) ink ! j = fill_rows ?rows' x (y + 1) bm ink ! j" by simp
  also have "\<dots> = (if y + 1 \<le> int j \<and> int j < y + 1 + int (length bm)
                   then fill_row (?rows' ! j) x (bm ! nat (int j - (y + 1))) ink else ?rows' ! j)"
    using len by (rule Cons.IH)
  also have "\<dots> = (if y \<le> int j \<and> int j < y + int (length (mr # bm))
                   then fill_row (rows ! j) x ((mr # bm) ! nat (int j - y)) ink else rows ! j)"
  proof (cases "int j = y")
    case True
    show ?thesis by (subst at, simp add: True)
  next
    case False
    then have "y + 1 \<le> int j \<longleftrightarrow> y \<le> int j" by arith
    moreover have "y + 1 \<le> int j \<Longrightarrow> (mr # bm) ! nat (int j - y) = bm ! nat (int j - (y + 1))"
    proof -
      assume "y + 1 \<le> int j"
      then have "nat (int j - y) = Suc (nat (int j - (y + 1)))" by arith
      then show ?thesis by simp
    qed
    ultimately show ?thesis using False by (auto simp: at)
  qed
  finally show ?case .
qed

lemma rectangular_fill_rows:
  "rectangular w h rows \<Longrightarrow> rectangular w h (fill_rows rows x y bm ink)"
proof (induction bm arbitrary: rows y)
  case Nil
  then show ?case by simp
next
  case (Cons mr bm)
  have "rectangular w h (if 0 \<le> y \<and> y < int (length rows)
                         then rows[nat y := fill_row (rows ! nat y) x mr ink] else rows)"
  proof (cases "0 \<le> y \<and> y < int (length rows)")
    case True
    then have "nat y < h" using Cons.prems by (simp add: rectangular_def nat_less_iff)
    then have "length (fill_row (rows ! nat y) x mr ink) = w"
      using Cons.prems by (simp add: rectangular_nth_length)
    with True Cons.prems show ?thesis by (simp add: rectangular_update)
  next
    case False
    with Cons.prems show ?thesis by auto
  qed
  then show ?case by (simp add: Cons.IH)
qed

lemma wf_draw_bitmap:
  "wf_image img \<Longrightarrow> wf_image (draw_bitmap img x y bm ink)"
  by (simp add: wf_image_def draw_bitmap_def rectangular_fill_rows)

lemma draw_bitmap_size [simp]:
  "im_width (draw_bitmap img x y bm ink) = im_width img"
  "im_height (draw_bitmap img x y bm ink) = im_height img"
  by (simp_all add: draw_bitmap_def)

lemma draw_bitmap_pixel:
  assumes "wf_image img" "i < im_width img" "j < im_height img"
  shows "im_px (draw_bitmap img x y bm ink) ! j ! i =
           paint (cover bm (int i - x) (int j - y)) (im_px img ! j ! i) ink"
proof -
  have j: "j < length (im_px img)" and i: "i < length (im_px img ! j)"
    using assms by (simp_all add: wf_image_def rectangular_def)
  show ?thesis
    using i by (auto simp: draw_bitmap_def fill_rows_nth [OF j] fill_row_nth cover_def paint_def)
qed

text \<open>
  The row-by-row loops of \<open>fill_mask_L\<close>, with their clipping, compute the per-pixel
  specification: \<open>draw_bitmap\<close> blends exactly the pixels the mask covers, each once,
  and leaves every other pixel as it was.
\<close>

lemma draw_bitmap_refines:
  assumes "wf_image img"
  shows "draw_bitmap img x y bm ink = draw_spec img x y bm ink"
proof -
  have len: "length (im_px img) = im_height img"
    and row: "\<And>j. j < im_height img \<Longrightarrow> length (im_px img ! j) = im_width img"
    using assms by (simp_all add: wf_image_def rectangular_def)
  have len': "length (im_px (draw_bitmap img x y bm ink)) = im_height img"
    and row': "\<And>j. j < im_height img \<Longrightarrow> length (im_px (draw_bitmap img x y bm ink) ! j) = im_width img"
    using wf_draw_bitmap [OF assms, of x y bm ink] by (simp_all add: wf_image_def rectangular_def)
  have "im_px (draw_bitmap img x y bm ink) = im_px (draw_spec img x y bm ink)"
  proof (rule nth_equalityI)
    show "length (im_px (draw_bitmap img x y bm ink)) = length (im_px (draw_spec img x y bm ink))"
      by (simp add: len' draw_spec_def)
  next
    fix j assume "j < length (im_px (draw_bitmap img x y bm ink))"
    then have j: "j < im_height img" by (simp add: len')
    show "im_px (draw_bitmap img x y bm ink) ! j = im_px (draw_spec img x y bm ink) ! j"
    proof (rule nth_equalityI)
      show "length (im_px (draw_bitmap img x y bm ink) ! j) = length (im_px (draw_spec img x y bm ink) ! j)"
        using j by (simp add: row' draw_spec_def)
    next
      fix i assume "i < length (im_px (draw_bitmap img x y bm ink) ! j)"
      then have i: "i < im_width img"
        using j by (simp add: row')
      show "im_px (draw_bitmap img x y bm ink) ! j ! i = im_px (draw_spec img x y bm ink) ! j ! i"
        using draw_bitmap_pixel [OF assms i j] i j by (simp add: draw_spec_def)
    qed
  qed
  then show ?thesis by (simp add: draw_bitmap_def draw_spec_def)
qed

lemma draw_bitmap_all_pixels:
  assumes "wf_image img" and "all_pixels P img" and "\<And>m p. P p \<Longrightarrow> P (blend_px m p ink)"
  shows "all_pixels P (draw_bitmap img x y bm ink)"
proof -
  have "\<And>j i. j < im_height img \<Longrightarrow> i < im_width img \<Longrightarrow> P (im_px img ! j ! i)"
    using assms(1,2) by (simp add: all_pixels_iff)
  then have "\<And>j i. j < im_height img \<Longrightarrow> i < im_width img \<Longrightarrow>
               P (im_px (draw_bitmap img x y bm ink) ! j ! i)"
    using assms(1,3) by (simp add: draw_bitmap_pixel paint_def split: option.split)
  then show ?thesis
    using wf_draw_bitmap [OF assms(1)] by (simp add: all_pixels_iff)
qed

end
