(* ===== verification/Font.thy ===== *)
theory Font
  imports Raster
begin

text \<open>
  The text layer of the imaging library as \<open>create_icon\<close> calls it:
  \<open>ImageFont.truetype\<close> and \<open>ImageFont.load_default\<close> (which give font objects),
  \<open>ImageDraw.textbbox\<close> (the box of a text drawn at a point) and \<open>ImageDraw.text\<close>
  (which rasterises the text into a coverage mask with \<open>getmask2\<close> and blends it into the
  image with \<open>draw_bitmap\<close>). The rasteriser itself (FreeType, or the built-in bitmap font)
  is the host's font system: it is a parameter of the model, a record \<open>font_env\<close> that
  says which font files open and what mask a font gives for a text. Everything the script
  does with the result is modelled; the shapes of the glyphs are not.
\<close>

section \<open>Fonts and glyphs\<close>

text \<open>
  A font object: one opened from a TrueType file at a size, or the default font
  (\<open>load_default\<close> cannot fail).
\<close>

datatype font = FreeTypeFont string int | DefaultFont

text \<open>
  What \<open>font.getmask2(text)\<close> returns: a coverage mask of \<open>size = (w, h)\<close> bytes and
  the offset of its top-left corner from the text origin; \<open>font.getbbox(text)\<close> is
  \<open>(ox, oy, ox + w, oy + h)\<close> from the same \<open>size, offset = font.getsize(text)\<close>.
\<close>

record glyph =
  g_offset :: "int \<times> int"
  g_size :: "nat \<times> nat"
  g_mask :: "byte list list"

definition wf_glyph :: "glyph \<Rightarrow> bool" where
  "wf_glyph g \<longleftrightarrow> rectangular (fst (g_size g)) (snd (g_size g)) (g_mask g)"

text \<open>
  The host's font system: the exception opening a font file at a size raises, if any, and
  the glyph mask a font gives for a text.
\<close>

record font_env =
  font_open :: "string \<Rightarrow> int \<Rightarrow> exc option"
  font_render :: "font \<Rightarrow> string \<Rightarrow> glyph"

section \<open>Library calls\<close>

text \<open>\<open>ImageFont.truetype(path, size)\<close>: a size that is not positive is refused first.\<close>

definition truetype :: "'a font_env_scheme \<Rightarrow> string \<Rightarrow> int \<Rightarrow> exc + font" where
  "truetype env path sz =
     (if sz \<le> 0 then Inl (ValueError ''font size must be greater than 0'')
      else case font_open env path sz of
             Some e \<Rightarrow> Inl e
           | None \<Rightarrow> Inr (FreeTypeFont path sz))"

definition load_default :: font where
  "load_default = DefaultFont"

text \<open>\<open>ImageDraw.textbbox(xy, text, font)\<close>: the font's box shifted to \<open>xy\<close>.\<close>

definition textbbox :: "'a font_env_scheme \<Rightarrow> int \<times> int \<Rightarrow> string \<Rightarrow> font \<Rightarrow> int \<times> int \<times> int \<times> int" where
  "textbbox env xy text f =
     (let g = font_render env f text; (ox, oy) = g_offset g; (w, h) = g_size g
      in (fst xy + ox, snd xy + oy, fst xy + ox + int w, snd xy + oy + int h))"

text \<open>
  \<open>ImageDraw.text(xy, text, fill, font)\<close>: the mask of the text is drawn with
  \<open>draw_bitmap\<close> at \<open>xy\<close> plus the mask's offset, in the ink of \<open>fill\<close>.
\<close>

definition draw_text :: "'a font_env_scheme \<Rightarrow> image \<Rightarrow> int \<times> int \<Rightarrow> string \<Rightarrow> rgba \<Rightarrow> font \<Rightarrow> image" where
  "draw_text env img xy text fill f =
     (let g = font_render env f text; (ox, oy) = g_offset g
      in draw_bitmap img (fst xy + ox) (snd xy + oy) (g_mask g) fill)"

section \<open>Properties of the text layer\<close>

lemma truetype_Inr:
  "truetype env path sz = Inr f \<longleftrightarrow> 0 < sz \<and> font_open env path sz = None \<and> f = FreeTypeFont path sz"
  by (auto simp: truetype_def split: option.splits)

lemma textbbox_extent:
  "textbbox env xy text f = (l, t, r, b) \<Longrightarrow>
   r - l = int (fst (g_size (font_render env f text))) \<and> b - t = int (snd (g_size (font_render env f text)))"
  by (auto simp: textbbox_def Let_def split: prod.splits)

lemma cover_outside:
  assumes "wf_glyph g"
    and "\<not> (0 \<le> i \<and> i < int (fst (g_size g)) \<and> 0 \<le> j \<and> j < int (snd (g_size g)))"
  shows "cover (g_mask g) i j = None"
  using assms by (auto simp: cover_def wf_glyph_def rectangular_def)

lemma wf_draw_text:
  "wf_image img \<Longrightarrow> wf_image (draw_text env img xy text fill f)"
  by (simp add: draw_text_def Let_def wf_draw_bitmap split: prod.split)

lemma draw_text_size [simp]:
  "im_width (draw_text env img xy text fill f) = im_width img"
  "im_height (draw_text env img xy text fill f) = im_height img"
  by (simp_all add: draw_text_def Let_def split: prod.split)

text \<open>
  The pixels \<open>ImageDraw.text\<close> can change are those of the mask's box, placed at
  \<open>xy\<close> plus the offset: every pixel outside that box keeps its value.
\<close>

lemma draw_text_pixel:
  assumes "wf_image img" "i < im_width img" "j < im_height img"
    and "font_render env f text = g"
  shows "im_px (draw_text env img xy text fill f) ! j ! i =
           paint (cover (g_mask g) (int i - (fst xy + fst (g_offset g))) (int j - (snd xy + snd (g_offset g))))
                 (im_px img ! j ! i) fill"
  using assms by (simp add: draw_text_def Let_def draw_bitmap_pixel split: prod.split)

end
