(* ===== verification/Py_Str.thy ===== *)
theory Py_Str
  imports Icon_Prelude
begin

text \<open>
  Python's \<open>str\<close> of an \<open>int\<close>, which the two f-strings of the script apply to the icon
  size (\<open>f"icon{size}.png"\<close> on line 43, \<open>f"Created {filename} ({size}x{size})"\<close> on
  line 36), and a reader of decimal literals (what \<open>int(s)\<close> accepts of an optional minus
  sign and a non-empty run of digits). The round trip \<open>py_int (py_str n) = Some n\<close>
  gives that distinct sizes are written to distinct file names.
\<close>

section \<open>Printing\<close>

function py_str :: "int \<Rightarrow> string" where
  "py_str n =
     (if n < 0 then CHR ''-'' # py_str (- n)
      else if n < 10 then [char_of (48 + nat n)]
      else py_str (n div 10) @ [char_of (48 + nat (n mod 10))])"
  by pat_completeness auto
termination
  by (relation "measure (\<lambda>n. if n < 0 then 2 * nat (- n) + 1 else 2 * nat n)") auto

declare py_str.simps [simp del]

section \<open>Reading back\<close>

definition is_digit :: "char \<Rightarrow> bool" where
  "is_digit c \<longleftrightarrow> (48 :: nat) \<le> of_char c \<and> of_char c \<le> (57 :: nat)"

definition digit_val :: "char \<Rightarrow> int" where
  "digit_val c = int (of_char c) - 48"

fun digits_val :: "int \<Rightarrow> string \<Rightarrow> int" where
  "digits_val acc [] = acc"
| "digits_val acc (c # cs) = digits_val (10 * acc + digit_val c) cs"

definition py_int :: "string \<Rightarrow> int option" where
  "py_int s =
     (if s \<noteq> [] \<and> hd s = CHR ''-''
      then (if tl s \<noteq> [] \<and> list_all is_digit (tl s) then Some (- digits_val 0 (tl s)) else None)
      else (if s \<noteq> [] \<and> list_all is_digit s then Some (digits_val 0 s) else None))"

section \<open>Round trip\<close>

lemma digit_char_props:
  assumes "0 \<le> d" "d < 10"
  shows "is_digit (char_of (48 + nat d))" and "digit_val (char_of (48 + nat d)) = d"
    and "char_of (48 + nat d) \<noteq> CHR ''-''"
proof -
  have of: "of_char (char_of (48 + nat d) :: char) = 48 + nat d"
    using assms by simp
  then show "is_digit (char_of (48 + nat d))" using assms by (simp add: is_digit_def)
  show "digit_val (char_of (48 + nat d)) = d" using of assms by (simp add: digit_val_def)
  show "char_of (48 + nat d) \<noteq> CHR ''-''"
  proof
    assume "char_of (48 + nat d) = CHR ''-''"
    then have "of_char (char_of (48 + nat d) :: char) = (45 :: nat)" by simp
    with of show False by simp
  qed
qed

lemma digits_val_append: "digits_val acc (xs @ ys) = digits_val (digits_val acc xs) ys"
  by (induction xs arbitrary: acc) simp_all

lemma py_str_nonneg:
  "0 \<le> n \<Longrightarrow> py_str n \<noteq> [] \<and> list_all is_digit (py_str n) \<and> hd (py_str n) \<noteq> CHR ''-''
            \<and> digits_val 0 (py_str n) = n"
proof (induction n rule: py_str.induct)
  case (1 n)
  show ?case
  proof (cases "n < 10")
    case True
    with "1.prems" show ?thesis by (simp add: py_str.simps [of n] digit_char_props)
  next
    case False
    then have IH: "py_str (n div 10) \<noteq> [] \<and> list_all is_digit (py_str (n div 10))
                   \<and> hd (py_str (n div 10)) \<noteq> CHR ''-'' \<and> digits_val 0 (py_str (n div 10)) = n div 10"
      using "1.IH"(2) "1.prems" by simp
    have eq: "py_str n = py_str (n div 10) @ [char_of (48 + nat (n mod 10))]"
      using False "1.prems" by (simp add: py_str.simps [of n])
    have "digits_val 0 (py_str n) = 10 * (n div 10) + n mod 10"
      using IH by (simp add: eq digits_val_append digit_char_props)
    also have "\<dots> = n" by simp
    finally show ?thesis using IH by (simp add: eq digit_char_props)
  qed
qed

end
