(* ===== verification/Icon.thy ===== *)
theory Icon
  imports Font Py_Str
begin

text \<open>
  \<open>create_icon(size, filename)\<close> of \<open>src/icons/create_icons.py\<close> (lines 9 to 36), step
  by step as the code has it: the blue square (line 11), the font chosen in the
  \<open>try\<close>/\<open>except\<close> of lines 15 to 21, the size of the text's box (lines 24 to 27), the
  centred origin (lines 29 and 30), the white glyph (line 32), the PNG written to the file
  (line 35) and the confirmation line on standard output (line 36). The world the script
  acts on is a record of the files it has written (each as the image its PNG decodes to)
  and the lines printed; which writes fail is a parameter of the environment, an extension
  of the font environment of \<open>Font\<close>.
\<close>

section \<open>State and environment\<close>

record world =
  files :: "string \<Rightarrow> image option"
  stdout :: "string list"

text \<open>The exception \<open>img.save(filename)\<close> raises, if any (permissions, a full disk).\<close>

record env = font_env +
  write_error :: "string \<Rightarrow> exc option"

section \<open>The steps of \<open>create_icon\<close>\<close>

definition background :: rgba where
  "background = \<lparr>ch_r = 0, ch_g = 123, ch_b = 186, ch_a = 255\<rparr>"

definition white :: rgba where
  "white = \<lparr>ch_r = 255, ch_g = 255, ch_b = 255, ch_a = 255\<rparr>"

definition arial_path :: string where
  "arial_path = ''/System/Library/Fonts/Arial.ttf''"

definition icon_text :: string where
  "icon_text = ''U''"

text \<open>\<open>font_size = max(size // 3, 12)\<close>; Python's \<open>//\<close> floors, as \<open>div\<close> on \<open>int\<close> does.\<close>

definition font_size :: "int \<Rightarrow> int" where
  "font_size sz = max (sz div 3) 12"

text \<open>
  Lines 15 to 21: the bare \<open>except:\<close> turns every exception of \<open>truetype\<close> into the
  default font.
\<close>

definition select_font :: "'a font_env_scheme \<Rightarrow> int \<Rightarrow> font" where
  "select_font env sz =
     (case truetype env arial_path (font_size sz) of
        Inr f \<Rightarrow> f
      | Inl _ \<Rightarrow> load_default)"

text \<open>Lines 25 to 27: the box of the text drawn at \<open>(0, 0)\<close>, its width and its height.\<close>

definition text_size :: "'a font_env_scheme \<Rightarrow> font \<Rightarrow> int \<times> int" where
  "text_size env f =
     (let (l, t, r, b) = textbbox env (0, 0) icon_text f in (r - l, b - t))"

text \<open>Lines 29 and 30: the origin of the text.\<close>

definition text_origin :: "int \<Rightarrow> int \<times> int \<Rightarrow> int \<times> int" where
  "text_origin sz twh = ((sz - fst twh) div 2, (sz - snd twh) div 2)"

text \<open>
  Lines 11 to 32: the image before it is saved. \<open>ImageDraw.Draw(img)\<close> (line 12) only
  makes the drawing handle and changes nothing.
\<close>

definition render_icon :: "'a font_env_scheme \<Rightarrow> int \<Rightarrow> exc + image" where
  "render_icon env sz =
     (case image_new sz sz background of
        Inl e \<Rightarrow> Inl e
      | Inr img \<Rightarrow>
          (let f = select_font env sz;
               xy = text_origin sz (text_size env f)
           in Inr (draw_text env img xy icon_text white f)))"

text \<open>
  Line 35: \<open>img.save(filename, 'PNG')\<close> opens the file first (an exception of the
  open leaves the call), then runs the PNG encoder over the whole image; on an image
  with no pixels the encoder's tile is empty and the library raises \<open>SystemError\<close>.
  Otherwise the file is created or overwritten.
\<close>

definition save_png :: "env \<Rightarrow> image \<Rightarrow> string \<Rightarrow> world \<Rightarrow> exc + world" where
  "save_png env img filename w =
     (case write_error env filename of
        Some e \<Rightarrow> Inl e
      | None \<Rightarrow>
          if im_width img = 0 \<or> im_height img = 0
          then Inl (OtherError ''SystemError: tile cannot extend outside image'')
          else Inr (w\<lparr>files := (files w)(filename \<mapsto> img)\<rparr>))"

text \<open>Line 36: \<open>print(f"Created {filename} ({size}x{size})")\<close>.\<close>

definition confirmation :: "string \<Rightarrow> int \<Rightarrow> string" where
  "confirmation filename sz = ''Created '' @ filename @ '' ('' @ py_str sz @ ''x'' @ py_str sz @ '')''"

definition create_icon :: "env \<Rightarrow> int \<Rightarrow> string \<Rightarrow> world \<Rightarrow> exc + world" where
  "create_icon env sz filename w =
     (case render_icon env sz of
        Inl e \<Rightarrow> Inl e
      | Inr img \<Rightarrow>
          (case save_png env img filename w of
             Inl e \<Rightarrow> Inl e
           | Inr w' \<Rightarrow> Inr (w'\<lparr>stdout := stdout w' @ [confirmation filename sz]\<rparr>)))"

section \<open>Vocabulary of the properties\<close>

text \<open>The image line 11 allocates, before anything is drawn.\<close>

definition blank_icon :: "int \<Rightarrow> image" where
  "blank_icon sz =
     \<lparr>im_width = nat sz, im_height = nat sz, im_px = replicate (nat sz) (replicate (nat sz) background)\<rparr>"

text \<open>
  The colours an icon can hold: opaque, and on each channel between the blue background
  and the white ink.
\<close>

definition icon_palette :: "rgba \<Rightarrow> bool" where
  "icon_palette p \<longleftrightarrow> ch_a p = 255 \<and> 123 \<le> ch_g p \<and> 186 \<le> ch_b p"

text \<open>
  The box \<open>(left, top, right, bottom)\<close> the glyph's mask is drawn into: the origin of
  lines 29 and 30 plus the mask's offset.
\<close>

definition glyph_box :: "'a font_env_scheme \<Rightarrow> int \<Rightarrow> int \<times> int \<times> int \<times> int" where
  "glyph_box env sz =
     (let f = select_font env sz; g = font_render env f icon_text; (x, y) = text_origin sz (text_size env f)
      in (x + fst (g_offset g), y + snd (g_offset g),
          x + fst (g_offset g) + int (fst (g_size g)), y + snd (g_offset g) + int (snd (g_size g))))"

definition in_box :: "int \<times> int \<times> int \<times> int \<Rightarrow> int \<Rightarrow> int \<Rightarrow> bool" where
  "in_box b i j \<longleftrightarrow> (case b of (l, t, r, bt) \<Rightarrow> l \<le> i \<and> i < r \<and> t \<le> j \<and> j < bt)"

section \<open>The font\<close>

lemma font_size_pos: "0 < font_size sz"
  by (simp add: font_size_def)

text \<open>
  C7. The font size is never below 12 points; from an icon of 36 pixels on it is a third
  of the icon's side, below that it is 12.
\<close>

theorem font_size_bounds:
  "12 \<le> font_size sz \<and> (36 \<le> sz \<longrightarrow> font_size sz = sz div 3) \<and> (sz < 36 \<longrightarrow> font_size sz = 12)"
  by (auto simp: font_size_def)

text \<open>
  C6. The \<open>try\<close>/\<open>except\<close> of lines 15 to 21: the size check of \<open>truetype\<close> never
  fires (the size is at least 12), so the Arial font is used exactly when the font file
  opens, and any exception opening it gives the default font, never an error.
\<close>

theorem select_font_fallback:
  "select_font env sz =
     (case font_open env arial_path (font_size sz) of
        None \<Rightarrow> FreeTypeFont arial_path (font_size sz)
      | Some _ \<Rightarrow> DefaultFont)"
proof -
  have "\<not> font_size sz \<le> 0" using font_size_pos [of sz] by simp
  then show ?thesis
    by (simp add: select_font_def truetype_def load_default_def split: option.split)
qed

section \<open>The rendered image\<close>

lemma render_icon_eq:
  "render_icon env sz =
     (if sz < 0 then Inl (ValueError ''Width and height must be >= 0'')
      else Inr (draw_text env (blank_icon sz) (text_origin sz (text_size env (select_font env sz))) icon_text white
                  (select_font env sz)))"
  by (simp add: render_icon_def image_new_def blank_icon_def Let_def)

lemma wf_blank_icon: "wf_image (blank_icon sz)"
  by (simp add: wf_image_def blank_icon_def)

lemma render_icon_Inr:
  "render_icon env sz = Inr img \<Longrightarrow> 0 \<le> sz \<and> wf_image img \<and> im_width img = nat sz \<and> im_height img = nat sz"
  by (auto simp: render_icon_eq wf_draw_text wf_blank_icon split: if_splits) (simp_all add: blank_icon_def)

lemma render_icon_empty:
  "render_icon env sz = Inr img \<Longrightarrow> im_width img = 0 \<longleftrightarrow> sz = 0"
  "render_icon env sz = Inr img \<Longrightarrow> im_height img = 0 \<longleftrightarrow> sz = 0"
  by (auto dest!: render_icon_Inr)

lemma text_size_eq:
  "text_size env f =
     (int (fst (g_size (font_render env f icon_text))), int (snd (g_size (font_render env f icon_text))))"
  by (simp add: text_size_def textbbox_def Let_def split: prod.split)

lemma icon_palette_blend: "icon_palette p \<Longrightarrow> icon_palette (blend_px m p white)"
proof -
  assume p: "icon_palette p"
  have a: "ch_a (blend_px m p white) = 255"
    using p by (simp add: icon_palette_def white_def raster_simps)
  have "min (unat (ch_g p)) 255 \<le> unat (blend_ch m (ch_g p) 255)"
    using blend_ch_between [of "ch_g p" 255 m] by simp
  moreover have "min (unat (ch_b p)) 255 \<le> unat (blend_ch m (ch_b p) 255)"
    using blend_ch_between [of "ch_b p" 255 m] by simp
  moreover have "unat (ch_g p) \<le> 255" "unat (ch_b p) \<le> 255" by (simp_all add: unat_byte_le)
  ultimately have "ch_g p \<le> blend_ch m (ch_g p) 255" "ch_b p \<le> blend_ch m (ch_b p) 255"
    by (simp_all add: word_le_nat_alt)
  with p a show ?thesis
    by (auto simp: icon_palette_def blend_px_def white_def intro: order_trans)
qed

lemma render_icon_pixel:
  assumes "render_icon env sz = Inr img" "i < nat sz" "j < nat sz"
    and "g = font_render env (select_font env sz) icon_text"
    and "(x, y) = text_origin sz (text_size env (select_font env sz))"
  shows "im_px img ! j ! i =
           paint (cover (g_mask g) (int i - (x + fst (g_offset g))) (int j - (y + snd (g_offset g)))) background white"
proof -
  have img: "img = draw_text env (blank_icon sz) (x, y) icon_text white (select_font env sz)"
    using assms(1,5) by (simp add: render_icon_eq split: if_splits)
  have dims: "i < im_width (blank_icon sz)" "j < im_height (blank_icon sz)"
    using assms(2,3) by (simp_all add: blank_icon_def)
  have "im_px (blank_icon sz) ! j ! i = background"
    using assms(2,3) by (simp add: blank_icon_def)
  then show ?thesis
    using draw_text_pixel [OF wf_blank_icon dims assms(4) [symmetric]] by (simp add: img)
qed

lemma glyph_box_eq:
  "glyph_box env sz =
     (let g = font_render env (select_font env sz) icon_text;
          l = (sz - int (fst (g_size g))) div 2 + fst (g_offset g);
          t = (sz - int (snd (g_size g))) div 2 + snd (g_offset g)
      in (l, t, l + int (fst (g_size g)), t + int (snd (g_size g))))"
  by (simp add: glyph_box_def text_origin_def text_size_eq Let_def)

lemma render_icon_outside_box:
  assumes "render_icon env sz = Inr img" "i < nat sz" "j < nat sz"
    and "wf_glyph (font_render env (select_font env sz) icon_text)"
    and "\<not> in_box (glyph_box env sz) (int i) (int j)"
  shows "im_px img ! j ! i = background"
proof -
  let ?f = "select_font env sz"
  let ?g = "font_render env ?f icon_text"
  obtain x y where xy: "(x, y) = text_origin sz (text_size env ?f)" by (metis surj_pair)
  have "cover (g_mask ?g) (int i - (x + fst (g_offset ?g))) (int j - (y + snd (g_offset ?g))) = None"
    using assms(4,5) xy by (intro cover_outside) (auto simp: glyph_box_def in_box_def Let_def split: prod.splits)
  then show ?thesis
    using render_icon_pixel [OF assms(1,2,3) refl xy] by (simp add: paint_def)
qed

text \<open>
  C28. The origin when the text does not fit: Python's \<open>//\<close> rounds down, also for a
  negative margin, so the origin is the floor of half the margin on each axis, and a text
  wider than the icon starts left of it and overhangs both edges, the extra pixel going
  left (a truncating division would put it at 0 and overhang the right edge only).
\<close>

theorem text_origin_floor:
  assumes "text_origin sz (tw, th) = (x, y)"
  shows "2 * x \<le> sz - tw \<and> sz - tw \<le> 2 * x + 1 \<and> 2 * y \<le> sz - th \<and> sz - th \<le> 2 * y + 1
       \<and> (sz < tw \<longrightarrow> x < 0 \<and> sz \<le> x + tw)"
  using assms by (auto simp: text_origin_def)

text \<open>
  C15. The rendered icon is the per-pixel specification of the mask blend: the blank blue
  square with the glyph's mask blended in white at the origin plus the mask's offset, and
  nothing else changed.
\<close>

theorem render_icon_refines:
  assumes "render_icon env sz = Inr img"
    and "g = font_render env (select_font env sz) icon_text"
    and "(x, y) = text_origin sz (text_size env (select_font env sz))"
  shows "img = draw_spec (blank_icon sz) (x + fst (g_offset g)) (y + snd (g_offset g)) (g_mask g) white"
proof -
  have "img = draw_text env (blank_icon sz) (x, y) icon_text white (select_font env sz)"
    using assms(1,3) by (simp add: render_icon_eq split: if_splits)
  also have "\<dots> = draw_bitmap (blank_icon sz) (x + fst (g_offset g)) (y + snd (g_offset g)) (g_mask g) white"
    using assms(2) by (simp add: draw_text_def Let_def split: prod.split)
  also have "\<dots> = draw_spec (blank_icon sz) (x + fst (g_offset g)) (y + snd (g_offset g)) (g_mask g) white"
    by (rule draw_bitmap_refines [OF wf_blank_icon])
  finally show ?thesis .
qed

text \<open>
  C16. The colour of a pixel the glyph covers with value \<open>m\<close>: each channel is the
  weighted mean of the background's and white's, \<open>(c * (255 - m) + 255 * m) / 255\<close>
  rounded to nearest, computed by \<open>BLEND\<close>'s shift-and-add \<open>DIV255\<close> without loss,
  and the pixel stays opaque.
\<close>

theorem icon_pixel_rounds:
  assumes "render_icon env sz = Inr img" "i < nat sz" "j < nat sz"
    and "g = font_render env (select_font env sz) icon_text"
    and "(x, y) = text_origin sz (text_size env (select_font env sz))"
    and "cover (g_mask g) (int i - (x + fst (g_offset g))) (int j - (y + snd (g_offset g))) = Some m"
  shows "unat (ch_r (im_px img ! j ! i)) = (255 * unat m + 127) div 255
       \<and> unat (ch_g (im_px img ! j ! i)) = (123 * (255 - unat m) + 255 * unat m + 127) div 255
       \<and> unat (ch_b (im_px img ! j ! i)) = (186 * (255 - unat m) + 255 * unat m + 127) div 255
       \<and> ch_a (im_px img ! j ! i) = 255"
proof -
  have "im_px img ! j ! i = blend_px m background white"
    using render_icon_pixel [OF assms(1-5)] assms(6) by (simp add: paint_def)
  then show ?thesis
    by (simp add: raster_simps background_def white_def blend_ch_rounds)
qed

text \<open>
  C3. Every pixel of a rendered icon is opaque and lies, channel by channel, between the
  blue background and the white ink, whatever the font draws.
\<close>

theorem render_icon_palette:
  "render_icon env sz = Inr img \<Longrightarrow> all_pixels icon_palette img"
proof -
  assume r: "render_icon env sz = Inr img"
  have "all_pixels icon_palette (blank_icon sz)"
    by (simp add: all_pixels_def blank_icon_def icon_palette_def background_def)
  then show ?thesis
    using r by (auto simp: render_icon_eq draw_text_def Let_def wf_blank_icon icon_palette_blend
                  intro!: draw_bitmap_all_pixels split: if_splits prod.splits)
qed

text \<open>
  C4. Outside the box the glyph is drawn into, an icon keeps the background colour: reading
  such a pixel with \<open>getpixel\<close> gives the blue of line 11.
\<close>

theorem render_icon_outside_glyph:
  assumes "render_icon env sz = Inr img"
    and "wf_glyph (font_render env (select_font env sz) icon_text)"
    and "0 \<le> x" "x < sz" "0 \<le> y" "y < sz"
    and "\<not> in_box (glyph_box env sz) x y"
  shows "getpixel img x y = Inr background"
proof -
  have dims: "im_width img = nat sz" "im_height img = nat sz"
    using render_icon_Inr [OF assms(1)] by simp_all
  have "im_px img ! nat y ! nat x = background"
    using assms by (intro render_icon_outside_box) simp_all
  with assms(3-6) show ?thesis by (simp add: getpixel_def dims)
qed

text \<open>
  C5. Where the glyph lands. Twice the centre of the glyph's box is the icon's side, less
  the parity of the free space, plus twice the mask's offset: lines 29 and 30 centre the
  box's size but the text is then drawn at the origin plus the offset \<open>bbox[0], bbox[1]\<close>,
  which the code never subtracts.
\<close>

theorem glyph_box_centre:
  assumes "glyph_box env sz = (l, t, r, b)"
    and "g = font_render env (select_font env sz) icon_text"
  shows "l + r = sz - (sz - int (fst (g_size g))) mod 2 + 2 * fst (g_offset g)
       \<and> t + b = sz - (sz - int (snd (g_size g))) mod 2 + 2 * snd (g_offset g)"
proof -
  have "2 * ((sz - int (fst (g_size g))) div 2) = sz - int (fst (g_size g)) - (sz - int (fst (g_size g))) mod 2"
    and "2 * ((sz - int (snd (g_size g))) div 2) = sz - int (snd (g_size g)) - (sz - int (snd (g_size g))) mod 2"
    by (simp_all add: minus_mod_eq_mult_div)
  then show ?thesis
    using assms by (auto simp: glyph_box_def text_origin_def text_size_eq Let_def)
qed

text \<open>
  C18. When the glyph fits with a margin (a non-negative offset and at least one free
  pixel on each side), every pixel of the icon's border, the four corners among them, keeps
  the background colour.
\<close>

theorem render_icon_border:
  assumes "render_icon env sz = Inr img"
    and "g = font_render env (select_font env sz) icon_text" and "wf_glyph g"
    and "0 \<le> fst (g_offset g)" "int (fst (g_size g)) + 2 * fst (g_offset g) + 2 \<le> sz"
    and "0 \<le> snd (g_offset g)" "int (snd (g_size g)) + 2 * snd (g_offset g) + 2 \<le> sz"
    and "0 \<le> k" "k < sz"
  shows "getpixel img 0 k = Inr background \<and> getpixel img (sz - 1) k = Inr background
       \<and> getpixel img k 0 = Inr background \<and> getpixel img k (sz - 1) = Inr background"
proof -
  have dims: "im_width img = nat sz" "im_height img = nat sz"
    using render_icon_Inr [OF assms(1)] by simp_all
  have out: "\<not> in_box (glyph_box env sz) x y"
    if "x = 0 \<or> x = sz - 1 \<or> y = 0 \<or> y = sz - 1" for x y
  proof -
    have "2 * ((sz - int (fst (g_size g))) div 2) \<le> sz - int (fst (g_size g))"
      and "sz - int (fst (g_size g)) \<le> 2 * ((sz - int (fst (g_size g))) div 2) + 1"
      and "2 * ((sz - int (snd (g_size g))) div 2) \<le> sz - int (snd (g_size g))"
      and "sz - int (snd (g_size g)) \<le> 2 * ((sz - int (snd (g_size g))) div 2) + 1"
      by linarith+
    with that assms(4-7) show ?thesis
      by (auto simp: glyph_box_eq in_box_def Let_def assms(2) [symmetric])
  qed
  have px: "getpixel img x y = Inr background"
    if "0 \<le> x" "x < sz" "0 \<le> y" "y < sz" "x = 0 \<or> x = sz - 1 \<or> y = 0 \<or> y = sz - 1" for x y
  proof -
    have "im_px img ! nat y ! nat x = background"
      using that assms(2,3) out [OF that(5)]
      by (intro render_icon_outside_box [OF assms(1)]) simp_all
    with that show ?thesis by (simp add: getpixel_def dims)
  qed
  show ?thesis using assms(8,9) by (simp add: px)
qed

section \<open>Saving and reporting\<close>

lemma create_icon_Inr:
  "create_icon env sz filename w = Inr w' \<longleftrightarrow>
     (\<exists>img. render_icon env sz = Inr img \<and> 0 < sz \<and> write_error env filename = None
            \<and> w' = w\<lparr>files := (files w)(filename \<mapsto> img), stdout := stdout w @ [confirmation filename sz]\<rparr>)"
  by (auto simp: create_icon_def save_png_def render_icon_empty dest: render_icon_Inr split: sum.splits option.splits if_splits)

text \<open>
  C1. A call that returns has written the file: a square image of the requested side,
  stored under the file name and under no other name, and it has printed the
  confirmation line.
\<close>

theorem create_icon_success:
  assumes "create_icon env sz filename w = Inr w'"
  shows "0 \<le> sz
         \<and> (\<exists>img. files w' filename = Some img \<and> wf_image img \<and> im_width img = nat sz \<and> im_height img = nat sz)
         \<and> (\<forall>f. f \<noteq> filename \<longrightarrow> files w' f = files w f)
         \<and> stdout w' = stdout w @ [confirmation filename sz]"
  using assms render_icon_Inr by (fastforce simp: create_icon_Inr)

text \<open>
  C2. The only exceptions that leave \<open>create_icon\<close> are the \<open>ValueError\<close> of
  \<open>Image.new\<close> for a negative size, the exception of opening the file, and, for size 0
  with a file that opens, the \<open>SystemError\<close> of the encoder on the empty image; a
  failing font load never does. On an exception nothing is printed.
\<close>

theorem create_icon_error_cases:
  "create_icon env sz filename w = Inl e \<longleftrightarrow>
     (sz < 0 \<and> e = ValueError ''Width and height must be >= 0'')
     \<or> (0 \<le> sz \<and> write_error env filename = Some e)
     \<or> (sz = 0 \<and> write_error env filename = None
        \<and> e = OtherError ''SystemError: tile cannot extend outside image'')"
  by (auto simp: create_icon_def save_png_def render_icon_eq blank_icon_def split: option.splits)

text \<open>
  C8. Running \<open>create_icon\<close> again with the same arguments overwrites the file with the
  same image: the files are those of the first run, and one more line is printed.
\<close>

theorem create_icon_rerun:
  assumes "create_icon env sz filename w = Inr w1" and "create_icon env sz filename w1 = Inr w2"
  shows "files w2 = files w1 \<and> stdout w2 = stdout w1 @ [confirmation filename sz]"
  using assms by (auto simp: create_icon_Inr)

end
