(* ===== verification/Driver.thy ===== *)
theory Driver
  imports Icon
begin

text \<open>
  \<open>main()\<close> of \<open>src/icons/create_icons.py\<close> (lines 38 to 44): \<open>create_icon\<close> for the
  sizes 16, 32, 48 and 128 in turn, each into \<open>icon{size}.png\<close>. An exception of one
  call is not caught: it ends the run, and the files written before it stay written. The
  outcome of a run is therefore the final world together with whether it returned or
  raised.
\<close>

section \<open>Definitions\<close>

datatype 'w outcome = Returned 'w | Raised exc 'w

definition sizes :: "int list" where
  "sizes = [16, 32, 48, 128]"

definition icon_filename :: "int \<Rightarrow> string" where
  "icon_filename sz = ''icon'' @ py_str sz @ ''.png''"

text \<open>The \<open>for\<close> loop of lines 42 to 44.\<close>

fun create_all :: "env \<Rightarrow> int list \<Rightarrow> world \<Rightarrow> world outcome" where
  "create_all env [] w = Returned w"
| "create_all env (sz # rest) w =
     (case create_icon env sz (icon_filename sz) w of
        Inl e \<Rightarrow> Raised e w
      | Inr w' \<Rightarrow> create_all env rest w')"

definition main :: "env \<Rightarrow> world \<Rightarrow> world outcome" where
  "main env w = create_all env sizes w"

text \<open>
  Reading a size back from a file name of the form \<open>icon{size}.png\<close> (the inverse of
  line 43, used only to state its round trip).
\<close>

definition parse_icon_filename :: "string \<Rightarrow> int option" where
  "parse_icon_filename s =
     (if take 4 s = ''icon'' \<and> 8 \<le> length s \<and> drop (length s - 4) s = ''.png''
      then py_int (take (length s - 8) (drop 4 s)) else None)"

text \<open>A size whose icon the environment lets the script write.\<close>

definition icon_ok :: "env \<Rightarrow> int \<Rightarrow> bool" where
  "icon_ok env sz \<longleftrightarrow> 0 < sz \<and> write_error env (icon_filename sz) = None"

section \<open>File names\<close>

lemma py_str_roundtrip: "py_int (py_str n) = Some n"
proof (cases "n < 0")
  case True
  then have "py_str n = CHR ''-'' # py_str (- n)" by (simp add: py_str.simps [of n])
  with True py_str_nonneg [of "- n"] show ?thesis by (simp add: py_int_def)
next
  case False
  with py_str_nonneg [of n] show ?thesis by (auto simp: py_int_def)
qed

lemma icon_filename_inj: "icon_filename a = icon_filename b \<longleftrightarrow> a = b"
proof
  assume "icon_filename a = icon_filename b"
  then have "py_str a = py_str b" by (simp add: icon_filename_def)
  then have "py_int (py_str a) = py_int (py_str b)" by simp
  then show "a = b" by (simp add: py_str_roundtrip)
qed simp

text \<open>
  C13. The file name of line 43 determines the size: reading it back gives the size it was
  made from, so no two sizes share a file.
\<close>

theorem icon_filename_roundtrip: "parse_icon_filename (icon_filename sz) = Some sz"
  by (simp add: parse_icon_filename_def icon_filename_def py_str_roundtrip)

section \<open>Runs of the loop\<close>

lemma create_all_append:
  "create_all env (xs @ ys) w =
     (case create_all env xs w of Returned w' \<Rightarrow> create_all env ys w' | Raised e w' \<Rightarrow> Raised e w')"
  by (induction xs arbitrary: w) (simp_all split: sum.split)

lemma create_all_Returned_ok:
  "create_all env ss w = Returned w' \<Longrightarrow> \<forall>sz \<in> set ss. icon_ok env sz"
proof (induction ss arbitrary: w)
  case Nil
  then show ?case by simp
next
  case (Cons sz ss)
  then obtain w1 where "create_icon env sz (icon_filename sz) w = Inr w1" "create_all env ss w1 = Returned w'"
    by (auto split: sum.splits)
  with Cons.IH show ?case
    by (auto simp: icon_ok_def create_icon_Inr render_icon_eq split: if_splits)
qed

lemma create_all_Returned:
  assumes "\<forall>sz \<in> set ss. icon_ok env sz"
  shows "\<exists>w'. create_all env ss w = Returned w'
           \<and> stdout w' = stdout w @ map (\<lambda>sz. confirmation (icon_filename sz) sz) ss
           \<and> (\<forall>sz \<in> set ss. \<exists>img. render_icon env sz = Inr img \<and> files w' (icon_filename sz) = Some img)
           \<and> (\<forall>f. f \<notin> icon_filename ` set ss \<longrightarrow> files w' f = files w f)"
  using assms
proof (induction ss arbitrary: w)
  case Nil
  then show ?case by simp
next
  case (Cons sz ss)
  from Cons.prems obtain img where img: "render_icon env sz = Inr img"
    and ok: "write_error env (icon_filename sz) = None" and pos: "0 < sz"
    by (auto simp: icon_ok_def render_icon_eq)
  define w1 where "w1 = w\<lparr>files := (files w)(icon_filename sz \<mapsto> img),
                          stdout := stdout w @ [confirmation (icon_filename sz) sz]\<rparr>"
  have step: "create_icon env sz (icon_filename sz) w = Inr w1"
    using img ok pos by (simp add: create_icon_Inr w1_def)
  from Cons.prems obtain w' where w': "create_all env ss w1 = Returned w'"
    and out: "stdout w' = stdout w1 @ map (\<lambda>sz. confirmation (icon_filename sz) sz) ss"
    and new: "\<forall>s \<in> set ss. \<exists>img. render_icon env s = Inr img \<and> files w' (icon_filename s) = Some img"
    and old: "\<forall>f. f \<notin> icon_filename ` set ss \<longrightarrow> files w' f = files w1 f"
    using Cons.IH [of w1] by auto
  have "\<exists>img. render_icon env sz = Inr img \<and> files w' (icon_filename sz) = Some img"
  proof (cases "sz \<in> set ss")
    case True
    with new show ?thesis by blast
  next
    case False
    then have "icon_filename sz \<notin> icon_filename ` set ss" by (auto simp: icon_filename_inj)
    with old img show ?thesis by (simp add: w1_def)
  qed
  with step w' out new old show ?case by (auto simp: w1_def)
qed

text \<open>The files of a run that returned: the icons of its sizes, and the old files elsewhere.\<close>

lemma create_all_files:
  assumes "create_all env ss w = Returned w'"
  shows "\<forall>sz \<in> set ss. files w' (icon_filename sz) = Some (projr (render_icon env sz))"
    and "\<forall>f. f \<notin> icon_filename ` set ss \<longrightarrow> files w' f = files w f"
proof -
  obtain w'' where run: "create_all env ss w = Returned w''"
    and new: "\<forall>sz \<in> set ss. \<exists>img. render_icon env sz = Inr img \<and> files w'' (icon_filename sz) = Some img"
    and old: "\<forall>f. f \<notin> icon_filename ` set ss \<longrightarrow> files w'' f = files w f"
    using create_all_Returned [OF create_all_Returned_ok [OF assms]] by blast
  from run assms have "w'' = w'" by simp
  with new old show "\<forall>sz \<in> set ss. files w' (icon_filename sz) = Some (projr (render_icon env sz))"
    and "\<forall>f. f \<notin> icon_filename ` set ss \<longrightarrow> files w' f = files w f"
    by auto
qed

lemma create_all_same_files:
  assumes "set ss = set ss'"
    and "create_all env ss w = Returned w1" and "create_all env ss' w' = Returned w2"
    and "\<forall>f. f \<notin> icon_filename ` set ss \<longrightarrow> files w f = files w' f"
  shows "files w1 = files w2"
proof
  fix f
  show "files w1 f = files w2 f"
  proof (cases "f \<in> icon_filename ` set ss")
    case True
    then obtain sz where "sz \<in> set ss" "f = icon_filename sz" by blast
    with assms(1) create_all_files(1) [OF assms(2)] create_all_files(1) [OF assms(3)] show ?thesis by simp
  next
    case False
    with assms(1,4) create_all_files(2) [OF assms(2)] create_all_files(2) [OF assms(3)] show ?thesis by simp
  qed
qed

section \<open>Properties of the driver\<close>

text \<open>
  C10. No continue-on-error: if the sizes before \<open>sz\<close> were written and the call for
  \<open>sz\<close> raises, the run raises that exception with exactly the world the earlier sizes
  left, so no later size is written and no line is printed for it.
\<close>

theorem create_all_stops_at_error:
  assumes "create_all env pre w = Returned w'"
    and "create_icon env sz (icon_filename sz) w' = Inl e"
  shows "create_all env (pre @ sz # post) w = Raised e w'"
  using assms by (simp add: create_all_append)

text \<open>
  C11. The order of the sizes does not matter for the files: two runs over lists with the
  same sizes, in any order and with any repetitions, that both return leave the same files.
\<close>

theorem create_all_reorder_files:
  assumes "set ss = set ss'"
    and "create_all env ss w = Returned w1" and "create_all env ss' w = Returned w2"
  shows "files w1 = files w2"
  by (rule create_all_same_files [OF assms(1) assms(2) assms(3)]) simp

text \<open>
  C9. When every icon file can be written, \<open>main\<close> returns; it has printed the four
  confirmation lines in the order of the sizes and written each \<open>icon{S}.png\<close> as an
  image of \<open>S\<close> by \<open>S\<close> pixels.
\<close>

theorem main_success:
  assumes "\<forall>sz \<in> set sizes. write_error env (icon_filename sz) = None"
  shows "\<exists>w'. main env w = Returned w'
           \<and> stdout w' = stdout w @ [''Created icon16.png (16x16)'', ''Created icon32.png (32x32)'',
                                    ''Created icon48.png (48x48)'', ''Created icon128.png (128x128)'']
           \<and> (\<forall>sz \<in> set sizes. \<exists>img. files w' (icon_filename sz) = Some img
                                 \<and> wf_image img \<and> im_width img = nat sz \<and> im_height img = nat sz)"
proof -
  have ok: "\<forall>sz \<in> set sizes. icon_ok env sz"
    using assms by (simp add: icon_ok_def sizes_def)
  have lines: "map (\<lambda>sz. confirmation (icon_filename sz) sz) sizes =
                 [''Created icon16.png (16x16)'', ''Created icon32.png (32x32)'',
                  ''Created icon48.png (48x48)'', ''Created icon128.png (128x128)'']"
    by code_simp
  obtain w' where run: "create_all env sizes w = Returned w'"
    and out: "stdout w' = stdout w @ map (\<lambda>sz. confirmation (icon_filename sz) sz) sizes"
    and new: "\<forall>sz \<in> set sizes. \<exists>img. render_icon env sz = Inr img \<and> files w' (icon_filename sz) = Some img"
    using create_all_Returned [OF ok, of w] by blast
  have "\<forall>sz \<in> set sizes. \<exists>img. files w' (icon_filename sz) = Some img
                                 \<and> wf_image img \<and> im_width img = nat sz \<and> im_height img = nat sz"
    using new render_icon_Inr by fastforce
  with run out lines show ?thesis by (simp add: main_def)
qed

text \<open>
  C12. Running the script a second time on the world the first run left rewrites every
  icon with the same image: the files after the second run are those after the first.
\<close>

theorem main_rerun_same_files:
  assumes "main env w = Returned w1" and "main env w1 = Returned w2"
  shows "files w2 = files w1"
proof -
  have r1: "create_all env sizes w = Returned w1" and r2: "create_all env sizes w1 = Returned w2"
    using assms by (simp_all add: main_def)
  have "\<forall>f. f \<notin> icon_filename ` set sizes \<longrightarrow> files w1 f = files w f"
    using create_all_files(2) [OF r1] by simp
  then show ?thesis by (rule create_all_same_files [OF refl r2 r1])
qed

end
