(* ===== verification/Driver_Loop.thy ===== *)
theory Driver_Loop
  imports Driver
begin

text \<open>
  The \<open>for\<close> loop of \<open>main\<close> (lines 42 to 44) as a small-step machine, and the
  \<open>__main__\<close> guard (lines 46 and 47). A state of the loop is what is left of the
  iteration over the sizes, the world so far and the exception on its way out, if one was
  raised. One step runs one iteration; the loop ends when the sizes are used up or an
  exception is raised. The lemmas: the machine is deterministic, every run ends within
  as many steps as there are sizes left, the state it ends in is the outcome
  \<open>create_all\<close> computes, and every state it reaches holds only well-formed icons whose
  sides are the sizes their names say.
\<close>

section \<open>Definitions\<close>

datatype loop_state = LoopState (pending: "int list") (cur: world) (raised: "exc option")

text \<open>
  One iteration: \<open>for size in sizes\<close> takes the next size, builds its file name
  (line 43) and calls \<open>create_icon\<close> (line 44); an exception of the call is not caught
  and leaves the loop.
\<close>

inductive loop_step :: "env \<Rightarrow> loop_state \<Rightarrow> loop_state \<Rightarrow> bool" for env where
  iter_ok:
    "create_icon env sz (icon_filename sz) w = Inr w' \<Longrightarrow>
     loop_step env (LoopState (sz # rest) w None) (LoopState rest w' None)"
| iter_raise:
    "create_icon env sz (icon_filename sz) w = Inl e \<Longrightarrow>
     loop_step env (LoopState (sz # rest) w None) (LoopState rest w (Some e))"

code_pred loop_step .

definition loop_start :: "world \<Rightarrow> loop_state" where
  "loop_start w = LoopState sizes w None"

definition final :: "loop_state \<Rightarrow> bool" where
  "final s \<longleftrightarrow> pending s = [] \<or> raised s \<noteq> None"

text \<open>How the loop leaves \<open>main\<close>: by returning, or by the exception it carries.\<close>

definition loop_outcome :: "loop_state \<Rightarrow> world outcome" where
  "loop_outcome s = (case raised s of None \<Rightarrow> Returned (cur s) | Some e \<Rightarrow> Raised e (cur s))"

text \<open>Lines 46 and 47: \<open>main()\<close> runs only when the file is run as a script, not when it is imported.\<close>

definition script :: "string \<Rightarrow> env \<Rightarrow> world \<Rightarrow> world outcome" where
  "script name env w = (if name = ''__main__'' then main env w else Returned w)"

text \<open>The outcome the rest of the loop will have, seen from a state of it.\<close>

definition remaining :: "env \<Rightarrow> loop_state \<Rightarrow> world outcome" where
  "remaining env s =
     (case raised s of None \<Rightarrow> create_all env (pending s) (cur s) | Some e \<Rightarrow> Raised e (cur s))"

text \<open>Every icon file of a world is a well-formed square of the size in its name.\<close>

definition icons_wf :: "world \<Rightarrow> bool" where
  "icons_wf w \<longleftrightarrow>
     (\<forall>sz img. files w (icon_filename sz) = Some img
        \<longrightarrow> wf_image img \<and> im_width img = nat sz \<and> im_height img = nat sz)"

section \<open>The step relation\<close>

lemma loop_step_deterministic: "loop_step env s t \<Longrightarrow> loop_step env s u \<Longrightarrow> t = u"
  by (induction rule: loop_step.induct) (auto elim: loop_step.cases)

lemma final_no_step: "final s \<Longrightarrow> \<not> loop_step env s t"
  by (auto simp: final_def elim: loop_step.cases)

lemma loop_step_progress: "\<not> final s \<Longrightarrow> \<exists>t. loop_step env s t"
proof (cases s)
  case (LoopState ps w r)
  assume nf: "\<not> final s"
  with LoopState obtain sz rest where ps: "ps = sz # rest" and r: "r = None"
    by (cases ps) (auto simp: final_def)
  show ?thesis
  proof (cases "create_icon env sz (icon_filename sz) w")
    case (Inl e)
    then show ?thesis using LoopState ps r by (blast intro: loop_step.iter_raise)
  next
    case (Inr w')
    then show ?thesis using LoopState ps r by (blast intro: loop_step.iter_ok)
  qed
qed

lemma loop_step_pending: "loop_step env s t \<Longrightarrow> length (pending t) < length (pending s)"
  by (induction rule: loop_step.induct) simp_all

lemma remaining_step: "loop_step env s t \<Longrightarrow> remaining env t = remaining env s"
  by (induction rule: loop_step.induct) (simp_all add: remaining_def)

lemma remaining_final: "final s \<Longrightarrow> remaining env s = loop_outcome s"
  by (auto simp: final_def remaining_def loop_outcome_def split: option.split)

lemma loop_steps_pending:
  "(loop_step env ^^ n) s t \<Longrightarrow> n + length (pending t) \<le> length (pending s)"
proof (induction n arbitrary: s)
  case 0
  then show ?case by simp
next
  case (Suc n)
  from Suc.prems obtain u where su: "loop_step env s u" and ut: "(loop_step env ^^ n) u t"
    by (blast elim: relpowp_Suc_E2)
  have "n + length (pending t) \<le> length (pending u)" using ut by (rule Suc.IH)
  with loop_step_pending [OF su] show ?case by simp
qed

lemma loop_final_within:
  "\<exists>n t. (loop_step env ^^ n) s t \<and> final t \<and> n \<le> length (pending s)"
proof (induction "length (pending s)" arbitrary: s rule: less_induct)
  case less
  show ?case
  proof (cases "final s")
    case True
    then show ?thesis by (intro exI [of _ 0] exI [of _ s]) simp
  next
    case False
    then obtain u where su: "loop_step env s u" using loop_step_progress by blast
    then have shorter: "length (pending u) < length (pending s)" by (rule loop_step_pending)
    then obtain n t where "(loop_step env ^^ n) u t" "final t" "n \<le> length (pending u)"
      using less by blast
    moreover from su \<open>(loop_step env ^^ n) u t\<close> have "(loop_step env ^^ Suc n) s t"
      by (rule relpowp_Suc_I2)
    ultimately show ?thesis using shorter by (intro exI [of _ "Suc n"] exI [of _ t]) simp
  qed
qed

lemma loop_steps_remaining:
  "(loop_step env)\<^sup>*\<^sup>* s t \<Longrightarrow> remaining env t = remaining env s"
  by (induction rule: rtranclp_induct) (simp_all add: remaining_step)

lemma create_icon_icons_wf:
  assumes "icons_wf w" and "create_icon env sz (icon_filename sz) w = Inr w'"
  shows "icons_wf w'"
proof -
  obtain img where img: "render_icon env sz = Inr img"
    and w': "w' = w\<lparr>files := (files w)(icon_filename sz \<mapsto> img),
                      stdout := stdout w @ [confirmation (icon_filename sz) sz]\<rparr>"
    using assms(2) by (auto simp: create_icon_Inr)
  have "wf_image img \<and> im_width img = nat sz \<and> im_height img = nat sz"
    using render_icon_Inr [OF img] by simp
  with assms(1) show ?thesis by (auto simp: icons_wf_def w' icon_filename_inj)
qed

lemma loop_step_icons_wf: "loop_step env s t \<Longrightarrow> icons_wf (cur s) \<Longrightarrow> icons_wf (cur t)"
  by (induction rule: loop_step.induct) (simp_all add: create_icon_icons_wf)

section \<open>Properties of the loop\<close>

text \<open>
  The loop of \<open>main\<close> terminates: from the start it reaches a state where it stops,
  and no run of it, complete or not, has more iterations than there are sizes (four).
\<close>

lemma main_loop_terminates:
  "(\<exists>n t. (loop_step env ^^ n) (loop_start w) t \<and> final t)
   \<and> (\<forall>n t. (loop_step env ^^ n) (loop_start w) t \<longrightarrow> n \<le> 4)"
proof
  show "\<exists>n t. (loop_step env ^^ n) (loop_start w) t \<and> final t"
    using loop_final_within [of env "loop_start w"] by blast
  show "\<forall>n t. (loop_step env ^^ n) (loop_start w) t \<longrightarrow> n \<le> 4"
  proof (intro allI impI)
    fix n t assume "(loop_step env ^^ n) (loop_start w) t"
    from loop_steps_pending [OF this] show "n \<le> 4" by (simp add: loop_start_def sizes_def)
  qed
qed

text \<open>
  The step-by-step loop implements \<open>main\<close>: any state where it stops, reached from
  the start, leaves \<open>main\<close> with exactly the outcome \<open>main\<close> computes, so the order in
  which files are written and lines printed is the order of the iterations.
\<close>

lemma loop_refines_main:
  assumes "(loop_step env)\<^sup>*\<^sup>* (loop_start w) s" and "final s"
  shows "loop_outcome s = main env w"
proof -
  have "loop_outcome s = remaining env s" using assms(2) by (simp add: remaining_final)
  also have "\<dots> = remaining env (loop_start w)" using assms(1) by (rule loop_steps_remaining)
  also have "\<dots> = main env w" by (simp add: remaining_def loop_start_def main_def)
  finally show ?thesis .
qed

text \<open>
  C17. Every state the loop reaches from a world whose icon files are well formed holds
  only icon files that are well-formed images, square, of the side their name gives.
\<close>

theorem loop_reachable_icons_wf:
  assumes "icons_wf w" and "(loop_step env)\<^sup>*\<^sup>* (loop_start w) s"
  shows "icons_wf (cur s)"
  using assms(2,1)
proof (induction rule: rtranclp_induct)
  case base
  then show ?case by (simp add: loop_start_def)
next
  case (step t u)
  then show ?case by (blast intro: loop_step_icons_wf)
qed

end
