(* ===== verification/Report.thy ===== *)
theory Report
  imports Driver_Loop
begin

text \<open>
  The report a run prints: one line \<open>Created {filename} ({size}x{size})\<close> per icon
  (line 36). A reader of such a line recovers the file name and the size, whatever the
  file name holds, since the size part is read from the last opening parenthesis and the
  decimal form of an \<open>int\<close> has no parenthesis and no \<open>x\<close>. The lemmas: the line
  reads back (a round trip), and every line a run of the loop or of \<open>main\<close> has printed
  names an icon file that exists in the world and has the side the line reports.
\<close>

section \<open>Reading a confirmation line\<close>

definition parse_dims :: "string \<Rightarrow> (int \<times> int) option" where
  "parse_dims d =
     (let a = takeWhile (\<lambda>c. c \<noteq> CHR ''x'') d
      in if length a < length d
         then (case (py_int a, py_int (drop (Suc (length a)) d)) of
                 (Some m, Some n) \<Rightarrow> Some (m, n)
               | _ \<Rightarrow> None)
         else None)"

definition parse_confirmation :: "string \<Rightarrow> (string \<times> int) option" where
  "parse_confirmation s =
     (if take 8 s = ''Created '' \<and> 8 < length s \<and> last s = CHR '')''
      then (let body = butlast (drop 8 s);
                dims = rev (takeWhile (\<lambda>c. c \<noteq> CHR ''('') (rev body));
                front = rev (dropWhile (\<lambda>c. c \<noteq> CHR ''('') (rev body))
            in if 2 \<le> length front \<and> drop (length front - 2) front = '' (''
               then (case parse_dims dims of
                       Some (m, n) \<Rightarrow> if m = n then Some (take (length front - 2) front, m) else None
                     | None \<Rightarrow> None)
               else None)
      else None)"

text \<open>Every printed line names an icon file of the world with the side the line reports.\<close>

definition log_ok :: "world \<Rightarrow> bool" where
  "log_ok w \<longleftrightarrow>
     (\<forall>l \<in> set (stdout w). \<exists>sz img. parse_confirmation l = Some (icon_filename sz, sz)
        \<and> files w (icon_filename sz) = Some img \<and> im_width img = nat sz \<and> im_height img = nat sz)"

section \<open>The decimal form has no separator\<close>

lemma py_str_chars: "c \<in> set (py_str n) \<Longrightarrow> is_digit c \<or> c = CHR ''-''"
proof (induction n rule: py_str.induct)
  case (1 n)
  show ?case
  proof (cases "n < 0")
    case True
    with "1.prems" "1.IH"(1) show ?thesis by (auto simp: py_str.simps [of n])
  next
    case False
    show ?thesis
    proof (cases "n < 10")
      case True
      with False "1.prems" show ?thesis by (auto simp: py_str.simps [of n] digit_char_props)
    next
      case big: False
      with False "1.prems" "1.IH"(2) show ?thesis by (auto simp: py_str.simps [of n] digit_char_props)
    qed
  qed
qed

lemma py_str_no_sep:
  "CHR ''('' \<notin> set (py_str n)" "CHR ''x'' \<notin> set (py_str n)"
  using py_str_chars [of "CHR ''(''" n] py_str_chars [of "CHR ''x''" n] by (auto simp: is_digit_def)

lemma takeWhile_no_sep: "c \<notin> set xs \<Longrightarrow> takeWhile (\<lambda>x. x \<noteq> c) (xs @ c # ys) = xs"
  by (induction xs) auto

lemma dropWhile_no_sep: "c \<notin> set xs \<Longrightarrow> dropWhile (\<lambda>x. x \<noteq> c) (xs @ c # ys) = c # ys"
  by (induction xs) auto

lemma parse_dims_py_str: "parse_dims (py_str m @ CHR ''x'' # py_str n) = Some (m, n)"
  by (simp add: parse_dims_def takeWhile_no_sep py_str_no_sep py_str_roundtrip Let_def)

lemma parse_confirmation_split:
  assumes "CHR ''('' \<notin> set dims"
  shows "parse_confirmation (''Created '' @ fn @ '' ('' @ dims @ '')'') =
           (case parse_dims dims of
              Some (m, n) \<Rightarrow> if m = n then Some (fn, m) else None
            | None \<Rightarrow> None)"
proof -
  have body: "butlast (drop 8 (''Created '' @ fn @ '' ('' @ dims @ '')'')) = fn @ '' ('' @ dims"
    by (simp add: butlast_append)
  have r: "rev (fn @ '' ('' @ dims) = rev dims @ CHR ''('' # CHR '' '' # rev fn" by simp
  have nosep: "CHR ''('' \<notin> set (rev dims)" using assms by simp
  have front: "rev (CHR ''('' # CHR '' '' # rev fn) = fn @ '' ('' " by simp
  have tk: "take (length (fn @ '' ('') - 2) (fn @ '' ('') = fn" by simp
  show ?thesis
    unfolding parse_confirmation_def body Let_def r takeWhile_no_sep [OF nosep] dropWhile_no_sep [OF nosep] front tk
    by simp
qed

lemma parse_confirmation_py_str:
  "parse_confirmation (''Created '' @ fn @ '' ('' @ py_str m @ ''x'' @ py_str n @ '')'')
     = (if m = n then Some (fn, m) else None)"
proof -
  have eq: "''Created '' @ fn @ '' ('' @ py_str m @ ''x'' @ py_str n @ '')''
              = ''Created '' @ fn @ '' ('' @ (py_str m @ CHR ''x'' # py_str n) @ '')''" by simp
  have nosep: "CHR ''('' \<notin> set (py_str m @ CHR ''x'' # py_str n)" by (simp add: py_str_no_sep)
  show ?thesis
    unfolding eq using parse_confirmation_split [OF nosep, of fn] by (simp add: parse_dims_py_str)
qed

lemmas parse_confirmation_line = parse_confirmation_py_str [simplified]

lemma log_ok_save:
  assumes "log_ok w" and "im_width img = nat sz" "im_height img = nat sz"
  shows "log_ok (w\<lparr>files := (files w)(icon_filename sz \<mapsto> img)\<rparr>)"
proof -
  have "\<exists>sz' img'. parse_confirmation l = Some (icon_filename sz', sz')
          \<and> ((files w)(icon_filename sz \<mapsto> img)) (icon_filename sz') = Some img'
          \<and> im_width img' = nat sz' \<and> im_height img' = nat sz'"
    if l_in: "l \<in> set (stdout w)" for l
  proof -
    obtain sz' img' where l: "parse_confirmation l = Some (icon_filename sz', sz')"
      and f: "files w (icon_filename sz') = Some img'" and d: "im_width img' = nat sz' \<and> im_height img' = nat sz'"
      using assms(1) l_in unfolding log_ok_def by blast
    show ?thesis
    proof (cases "sz' = sz")
      case True
      with l assms(2,3) show ?thesis by auto
    next
      case False
      with l f d show ?thesis by (auto simp: icon_filename_inj)
    qed
  qed
  then show ?thesis by (simp add: log_ok_def)
qed

lemma log_ok_print:
  assumes "log_ok w" and "files w (icon_filename sz) = Some img"
    and "im_width img = nat sz" "im_height img = nat sz"
  shows "log_ok (w\<lparr>stdout := stdout w @ [confirmation (icon_filename sz) sz]\<rparr>)"
  using assms by (auto simp: log_ok_def confirmation_def parse_confirmation_line)

lemma log_ok_create_icon:
  assumes "log_ok w" and "create_icon env sz (icon_filename sz) w = Inr w'"
  shows "log_ok w'"
proof -
  obtain img where img: "render_icon env sz = Inr img"
    and w': "w' = w\<lparr>files := (files w)(icon_filename sz \<mapsto> img),
                      stdout := stdout w @ [confirmation (icon_filename sz) sz]\<rparr>"
    using assms(2) by (auto simp: create_icon_Inr)
  have d: "im_width img = nat sz" "im_height img = nat sz" using render_icon_Inr [OF img] by simp_all
  have "log_ok (w\<lparr>files := (files w)(icon_filename sz \<mapsto> img)\<rparr>)" by (rule log_ok_save [OF assms(1) d])
  from log_ok_print [OF this _ d] show ?thesis by (simp add: w')
qed

lemma create_all_log_ok:
  "log_ok w \<Longrightarrow> create_all env ss w = Returned w' \<or> create_all env ss w = Raised e w' \<Longrightarrow> log_ok w'"
proof (induction ss arbitrary: w)
  case Nil
  then show ?case by simp
next
  case (Cons sz ss)
  show ?case
  proof (cases "create_icon env sz (icon_filename sz) w")
    case (Inl e')
    with Cons.prems show ?thesis by simp
  next
    case (Inr w1)
    with Cons.prems have "log_ok w1" by (blast intro: log_ok_create_icon)
    with Cons.IH Cons.prems Inr show ?thesis by simp
  qed
qed

section \<open>Properties of the report\<close>

text \<open>
  C19. The confirmation line of line 36 reads back: the reader recovers the file name and
  the size from \<open>Created {filename} ({size}x{size})\<close>, for every file name and size.
\<close>

theorem confirmation_roundtrip:
  "parse_confirmation (confirmation filename sz) = Some (filename, sz)"
  by (simp add: confirmation_def parse_confirmation_line)

text \<open>
  C20. The report never lies: if every line already printed names an icon file of the
  world with the side it reports, then so does every line printed when \<open>main\<close> ends,
  whether it returns or raises.
\<close>

theorem main_log_faithful:
  assumes "log_ok w" and "main env w = Returned w' \<or> main env w = Raised e w'"
  shows "log_ok w'"
  using create_all_log_ok [OF assms(1)] assms(2) by (simp add: main_def)

text \<open>
  C21. The report of a run of \<open>main\<close> that returns is, line by line, the four sizes in
  the order of the list of line 40, each with its file name.
\<close>

theorem main_report:
  assumes "main env w = Returned w'"
  shows "map parse_confirmation (drop (length (stdout w)) (stdout w'))
           = map (\<lambda>sz. Some (icon_filename sz, sz)) sizes"
proof -
  have ok: "\<forall>sz \<in> set sizes. icon_ok env sz"
    using assms by (simp add: main_def create_all_Returned_ok)
  obtain w'' where "create_all env sizes w = Returned w''"
    and out: "stdout w'' = stdout w @ map (\<lambda>sz. confirmation (icon_filename sz) sz) sizes"
    using create_all_Returned [OF ok] by blast
  with assms have "w'' = w'" by (simp add: main_def)
  with out show ?thesis by (simp add: comp_def confirmation_def parse_confirmation_line)
qed

end
