(* ===== verification/Trace.thy ===== *)
theory Trace
  imports Report
begin

text \<open>
  A run as the sequence of its effects. Each call of \<open>create_icon\<close> that gets past the
  drawing has two effects, in this order: \<open>img.save\<close> writes the file (line 35) and
  \<open>print\<close> writes the confirmation line (line 36); the loop of \<open>main\<close> (lines 42 to 44)
  concatenates the effects of its calls and stops at the first exception. The lemmas:
  replaying the events on a world gives exactly what the world semantics of \<open>Icon\<close> and
  \<open>Driver\<close> computes, and every run, complete or cut short, is a sequence of
  save-then-print pairs in the order of the sizes, the failing size leaving no event.
\<close>

section \<open>Events\<close>

datatype event = Saved string image | Printed string

fun apply_event :: "world \<Rightarrow> event \<Rightarrow> world" where
  "apply_event w (Saved filename img) = w\<lparr>files := (files w)(filename \<mapsto> img)\<rparr>"
| "apply_event w (Printed line) = w\<lparr>stdout := stdout w @ [line]\<rparr>"

definition replay :: "world \<Rightarrow> event list \<Rightarrow> world" where
  "replay w evs = foldl apply_event w evs"

text \<open>The effects of one call of \<open>create_icon(size, filename)\<close>, or the exception it raises.\<close>

definition icon_events :: "env \<Rightarrow> int \<Rightarrow> string \<Rightarrow> exc + event list" where
  "icon_events env sz filename =
     (case render_icon env sz of
        Inl e \<Rightarrow> Inl e
      | Inr img \<Rightarrow>
          (case write_error env filename of
             Some e \<Rightarrow> Inl e
           | None \<Rightarrow>
               if im_width img = 0 \<or> im_height img = 0
               then Inl (OtherError ''SystemError: tile cannot extend outside image'')
               else Inr [Saved filename img, Printed (confirmation filename sz)]))"

text \<open>The effects of the loop of lines 42 to 44 over a list of sizes.\<close>

fun run_events :: "env \<Rightarrow> int list \<Rightarrow> event list outcome" where
  "run_events env [] = Returned []"
| "run_events env (sz # rest) =
     (case icon_events env sz (icon_filename sz) of
        Inl e \<Rightarrow> Raised e []
      | Inr evs \<Rightarrow>
          (case run_events env rest of
             Returned evs' \<Rightarrow> Returned (evs @ evs')
           | Raised e evs' \<Rightarrow> Raised e (evs @ evs')))"

primrec outcome_val :: "'w outcome \<Rightarrow> 'w" where
  "outcome_val (Returned x) = x"
| "outcome_val (Raised e x) = x"

definition save_print :: "int \<Rightarrow> image \<Rightarrow> event list" where
  "save_print sz img = [Saved (icon_filename sz) img, Printed (confirmation (icon_filename sz) sz)]"

section \<open>Replaying events\<close>

lemma replay_append: "replay w (xs @ ys) = replay (replay w xs) ys"
  by (simp add: replay_def)

lemma create_icon_events:
  "create_icon env sz filename w =
     (case icon_events env sz filename of Inl e \<Rightarrow> Inl e | Inr evs \<Rightarrow> Inr (replay w evs))"
  by (simp add: create_icon_def save_png_def icon_events_def replay_def split: sum.split option.split)

lemma icon_events_Inr:
  "icon_events env sz (icon_filename sz) = Inr evs \<Longrightarrow>
   \<exists>img. render_icon env sz = Inr img \<and> evs = save_print sz img"
  by (auto simp: icon_events_def save_print_def render_icon_empty split: sum.splits option.splits if_splits)

section \<open>Properties of the trace\<close>

text \<open>
  The world semantics is the replay of the trace: running the loop of \<open>main\<close> on a
  world gives, returned or raised, the world obtained by applying the run's events to it
  in order.
\<close>

lemma create_all_replay:
  "create_all env ss w = map_outcome (replay w) (run_events env ss)"
proof (induction ss arbitrary: w)
  case Nil
  then show ?case by (simp add: replay_def)
next
  case (Cons sz rest)
  show ?case
  proof (cases "icon_events env sz (icon_filename sz)")
    case (Inl e)
    then show ?thesis by (simp add: create_icon_events replay_def)
  next
    case (Inr evs)
    then have "create_all env (sz # rest) w = map_outcome (replay (replay w evs)) (run_events env rest)"
      by (simp add: create_icon_events Cons.IH)
    also have "\<dots> = map_outcome (replay w) (run_events env (sz # rest))"
      using Inr by (simp add: replay_append split: outcome.split)
    finally show ?thesis .
  qed
qed

text \<open>
  C22. Every run of the loop, returned or raised, is a sequence of pairs: the save of an
  icon immediately followed by the print of its confirmation line, for the sizes in the
  order of the list, each with the image drawn for it. A run that returns has done every
  size; a run that raises has done a strict prefix, the failing size leaving no event (so
  no line is ever printed for a file that was not written).
\<close>

theorem run_events_save_then_print:
  "\<exists>xs. outcome_val (run_events env ss) = concat (map (\<lambda>(sz, img). save_print sz img) xs)
     \<and> (\<forall>(sz, img) \<in> set xs. render_icon env sz = Inr img)
     \<and> (case run_events env ss of
          Returned _ \<Rightarrow> map fst xs = ss
        | Raised _ _ \<Rightarrow> length xs < length ss \<and> map fst xs = take (length xs) ss)"
proof (induction ss)
  case Nil
  then show ?case by simp
next
  case (Cons sz rest)
  show ?case
  proof (cases "icon_events env sz (icon_filename sz)")
    case (Inl e)
    then show ?thesis by (intro exI [of _ "[]"]) simp
  next
    case (Inr evs)
    then obtain img where img: "render_icon env sz = Inr img" and evs: "evs = save_print sz img"
      using icon_events_Inr by blast
    from Cons.IH obtain xs where
      tr: "outcome_val (run_events env rest) = concat (map (\<lambda>(sz, img). save_print sz img) xs)"
      and imgs: "\<forall>(sz, img) \<in> set xs. render_icon env sz = Inr img"
      and sh: "case run_events env rest of
                 Returned _ \<Rightarrow> map fst xs = rest
               | Raised _ _ \<Rightarrow> length xs < length rest \<and> map fst xs = take (length xs) rest"
      by blast
    show ?thesis
    proof (intro exI [of _ "(sz, img) # xs"])
      show "outcome_val (run_events env (sz # rest)) = concat (map (\<lambda>(sz, img). save_print sz img) ((sz, img) # xs))
        \<and> (\<forall>(sz, img) \<in> set ((sz, img) # xs). render_icon env sz = Inr img)
        \<and> (case run_events env (sz # rest) of
             Returned _ \<Rightarrow> map fst ((sz, img) # xs) = sz # rest
           | Raised _ _ \<Rightarrow> length ((sz, img) # xs) < length (sz # rest)
                           \<and> map fst ((sz, img) # xs) = take (length ((sz, img) # xs)) (sz # rest))"
        using Inr evs img tr imgs sh by (cases "run_events env rest") simp_all
    qed
  qed
qed

end
