(* ===== verification/Store.thy ===== *)
theory Store
  imports Driver
begin

text \<open>
  The objects of \<open>create_icon\<close> and their aliasing. Line 11 allocates an \<open>Image\<close>
  object, line 12 a drawing handle \<open>ImageDraw.Draw(img)\<close> that keeps a reference to that
  same image (Pillow stores \<open>img.im\<close> in it, it does not copy it), line 32 draws through
  the handle, and line 35 saves what \<open>img\<close> refers to. The store is a heap of objects
  indexed by address, with a limit below which addresses are in use. The lemmas: the call
  on the store computes what \<open>create_icon\<close> computes, the image it saves is the object
  the handle drew on, and the objects allocated before the call are not touched; the loop
  of \<open>main\<close> run through one store computes what \<open>main\<close> computes and leaves every
  earlier object as it was.
\<close>

section \<open>The object store\<close>

type_synonym addr = nat

datatype pyobj = ImageObj image | DrawObj addr

record heap =
  lim :: addr
  objs :: "addr \<Rightarrow> pyobj option"

definition wf_heap :: "heap \<Rightarrow> bool" where
  "wf_heap h \<longleftrightarrow> (\<forall>a. lim h \<le> a \<longrightarrow> objs h a = None)"

definition py_alloc :: "pyobj \<Rightarrow> heap \<Rightarrow> addr \<times> heap" where
  "py_alloc obj h = (lim h, h\<lparr>lim := Suc (lim h), objs := (objs h)(lim h \<mapsto> obj)\<rparr>)"

section \<open>The operations through the store\<close>

text \<open>Line 11: \<open>Image.new\<close> either raises or returns a new image object.\<close>

definition image_new_obj :: "int \<Rightarrow> int \<Rightarrow> rgba \<Rightarrow> heap \<Rightarrow> exc + addr \<times> heap" where
  "image_new_obj w hgt c h =
     (case image_new w hgt c of
        Inl e \<Rightarrow> Inl e
      | Inr im \<Rightarrow> Inr (py_alloc (ImageObj im) h))"

text \<open>Line 12: \<open>ImageDraw.Draw(img)\<close> makes a handle that refers to the image object.\<close>

definition draw_new :: "addr \<Rightarrow> heap \<Rightarrow> addr \<times> heap" where
  "draw_new img h = py_alloc (DrawObj img) h"

text \<open>
  Line 32: \<open>draw.text\<close> changes the image the handle refers to, in place. An address that
  does not hold a handle, or a handle whose image is gone, is a Python error.
\<close>

definition draw_text_obj ::
  "'a font_env_scheme \<Rightarrow> addr \<Rightarrow> int \<times> int \<Rightarrow> string \<Rightarrow> rgba \<Rightarrow> font \<Rightarrow> heap \<Rightarrow> exc + heap" where
  "draw_text_obj env d xy text fill f h =
     (case objs h d of
        Some (DrawObj a) \<Rightarrow>
          (case objs h a of
             Some (ImageObj im) \<Rightarrow> Inr (h\<lparr>objs := (objs h)(a \<mapsto> ImageObj (draw_text env im xy text fill f))\<rparr>)
           | _ \<Rightarrow> Inl (OtherError ''AttributeError''))
      | _ \<Rightarrow> Inl (OtherError ''AttributeError''))"

text \<open>Line 35: \<open>img.save\<close> writes the image object \<open>img\<close> refers to.\<close>

definition save_obj :: "env \<Rightarrow> addr \<Rightarrow> string \<Rightarrow> heap \<Rightarrow> world \<Rightarrow> exc + world" where
  "save_obj env a filename h w =
     (case objs h a of
        Some (ImageObj im) \<Rightarrow> save_png env im filename w
      | _ \<Rightarrow> Inl (OtherError ''AttributeError''))"

text \<open>Lines 9 to 36, with the objects in the store.\<close>

definition create_icon_obj :: "env \<Rightarrow> int \<Rightarrow> string \<Rightarrow> heap \<Rightarrow> world \<Rightarrow> exc + heap \<times> world" where
  "create_icon_obj env sz filename h w =
     (case image_new_obj sz sz background h of
        Inl e \<Rightarrow> Inl e
      | Inr (img, h1) \<Rightarrow>
          (let (draw, h2) = draw_new img h1;
               f = select_font env sz;
               xy = text_origin sz (text_size env f)
           in case draw_text_obj env draw xy icon_text white f h2 of
                Inl e \<Rightarrow> Inl e
              | Inr h3 \<Rightarrow>
                  (case save_obj env img filename h3 w of
                     Inl e \<Rightarrow> Inl e
                   | Inr w' \<Rightarrow> Inr (h3, w'\<lparr>stdout := stdout w' @ [confirmation filename sz]\<rparr>))))"

text \<open>
  Lines 38 to 44 with the store: each call allocates its own image and handle, and the
  loop stops at the first exception with the store and the world it has reached.
\<close>

fun create_all_obj :: "env \<Rightarrow> int list \<Rightarrow> heap \<Rightarrow> world \<Rightarrow> (heap \<times> world) outcome" where
  "create_all_obj env [] h w = Returned (h, w)"
| "create_all_obj env (sz # rest) h w =
     (case create_icon_obj env sz (icon_filename sz) h w of
        Inl e \<Rightarrow> Raised e (h, w)
      | Inr (h', w') \<Rightarrow> create_all_obj env rest h' w')"

definition main_obj :: "env \<Rightarrow> heap \<Rightarrow> world \<Rightarrow> (heap \<times> world) outcome" where
  "main_obj env h w = create_all_obj env sizes h w"

section \<open>Lemmas on the store\<close>

text \<open>The whole call, unfolded: where the two objects go and what the image holds at the end.\<close>

lemma create_icon_obj_eq:
  "create_icon_obj env sz filename h w =
     (case render_icon env sz of
        Inl e \<Rightarrow> Inl e
      | Inr im \<Rightarrow>
          (case save_png env im filename w of
             Inl e \<Rightarrow> Inl e
           | Inr w' \<Rightarrow>
               Inr (h\<lparr>lim := Suc (Suc (lim h)),
                      objs := (objs h)(Suc (lim h) \<mapsto> DrawObj (lim h), lim h \<mapsto> ImageObj im)\<rparr>,
                    w'\<lparr>stdout := stdout w' @ [confirmation filename sz]\<rparr>)))"
  by (simp add: create_icon_obj_def image_new_obj_def draw_new_def py_alloc_def draw_text_obj_def
                save_obj_def render_icon_def image_new_def Let_def fun_upd_twist)

lemma create_icon_obj_Inr:
  "create_icon_obj env sz filename h w = Inr (h', w') \<longleftrightarrow>
     (\<exists>im. render_icon env sz = Inr im \<and> 0 < sz \<and> write_error env filename = None
        \<and> h' = h\<lparr>lim := Suc (Suc (lim h)),
                  objs := (objs h)(Suc (lim h) \<mapsto> DrawObj (lim h), lim h \<mapsto> ImageObj im)\<rparr>
        \<and> w' = w\<lparr>files := (files w)(filename \<mapsto> im), stdout := stdout w @ [confirmation filename sz]\<rparr>)"
  by (auto simp: create_icon_obj_eq save_png_def render_icon_empty dest: render_icon_Inr split: sum.splits option.splits if_splits)

section \<open>Properties of the store\<close>

text \<open>
  C23. The drawing handle aliases the image: after a call that returns, the handle made
  at line 12 refers to the image object of line 11, and that object holds the rendered
  icon, which is the very image written to the file.
\<close>

theorem create_icon_obj_aliasing:
  assumes "create_icon_obj env sz filename h w = Inr (h', w')"
  shows "\<exists>im. render_icon env sz = Inr im \<and> objs h' (Suc (lim h)) = Some (DrawObj (lim h))
            \<and> objs h' (lim h) = Some (ImageObj im) \<and> files w' filename = Some im"
  using assms by (auto simp: create_icon_obj_Inr)

text \<open>
  C24. A call keeps the store well formed and touches nothing it did not allocate: the two
  new objects go to the two first free addresses, and every object allocated before the
  call is as it was.
\<close>

theorem create_icon_obj_frame:
  assumes "wf_heap h" and "create_icon_obj env sz filename h w = Inr (h', w')"
  shows "wf_heap h' \<and> lim h' = lim h + 2 \<and> (\<forall>a < lim h. objs h' a = objs h a)"
  using assms by (auto simp: create_icon_obj_Inr wf_heap_def)

lemma create_all_obj_refines:
  "map_outcome snd (create_all_obj env ss h w) = create_all env ss w"
proof (induction ss arbitrary: h w)
  case Nil
  then show ?case by simp
next
  case (Cons sz ss)
  then show ?case by (simp add: create_icon_obj_eq create_icon_def split: sum.split)
qed

lemma create_all_obj_frame:
  "wf_heap h \<Longrightarrow> create_all_obj env ss h w = Returned (h', w') \<Longrightarrow>
   wf_heap h' \<and> lim h' = lim h + 2 * length ss \<and> (\<forall>a < lim h. objs h' a = objs h a)"
proof (induction ss arbitrary: h w)
  case Nil
  then show ?case by simp
next
  case (Cons sz ss)
  obtain h1 w1 where step: "create_icon_obj env sz (icon_filename sz) h w = Inr (h1, w1)"
    and rest: "create_all_obj env ss h1 w1 = Returned (h', w')"
    using Cons.prems(2) by (auto split: sum.splits)
  have h1: "wf_heap h1 \<and> lim h1 = lim h + 2 \<and> (\<forall>a < lim h. objs h1 a = objs h a)"
    using Cons.prems(1) step by (auto simp: create_icon_obj_Inr wf_heap_def)
  then have "wf_heap h' \<and> lim h' = lim h1 + 2 * length ss \<and> (\<forall>a < lim h1. objs h' a = objs h1 a)"
    using Cons.IH rest by blast
  with h1 show ?case by auto
qed

text \<open>
  C29. Across a run of \<open>main\<close> that returns, the store stays well formed, the run
  allocates exactly two objects per icon (eight in all), and no object that existed before
  the run is changed.
\<close>

theorem main_obj_frame:
  assumes "wf_heap h" and "main_obj env h w = Returned (h', w')"
  shows "wf_heap h' \<and> lim h' = lim h + 8 \<and> (\<forall>a < lim h. objs h' a = objs h a)"
proof -
  have "length sizes = 4" by (simp add: sizes_def)
  then show ?thesis
    using create_all_obj_frame [OF assms(1), of env sizes w h' w'] assms(2) by (simp add: main_obj_def)
qed

end
