(* ===== verification/Io.thy ===== *)
theory Io
  imports Report
begin

text \<open>
  The script when \<open>print\<close> can fail as well as the write. \<open>print\<close> raises when
  standard output is closed or its pipe is broken; nothing in the script catches it.
  The host is extended with the exception a print raises (\<open>io_env\<close>), and a call of
  \<open>create_icon\<close> now ends with the world it has reached whether it returns or raises,
  since a print that fails comes after the save (lines 35 and 36). The lemmas: when print
  never fails this is the script of \<open>Icon\<close> and \<open>Driver\<close>; a failing print leaves the
  icon written and no line for it; and the report stays faithful on every run.
\<close>

section \<open>Definitions\<close>

record io_env = env +
  print_error :: "string \<Rightarrow> exc option"

text \<open>Line 36: \<open>print\<close> appends the line to standard output, or raises.\<close>

definition print_line :: "io_env \<Rightarrow> string \<Rightarrow> world \<Rightarrow> world outcome" where
  "print_line ienv line w =
     (case print_error ienv line of
        Some e \<Rightarrow> Raised e w
      | None \<Rightarrow> Returned (w\<lparr>stdout := stdout w @ [line]\<rparr>))"

text \<open>Lines 9 to 36: draw, save (line 35), then print (line 36).\<close>

definition create_icon_io :: "io_env \<Rightarrow> int \<Rightarrow> string \<Rightarrow> world \<Rightarrow> world outcome" where
  "create_icon_io ienv sz filename w =
     (case render_icon ienv sz of
        Inl e \<Rightarrow> Raised e w
      | Inr img \<Rightarrow>
          (case save_png (env.truncate ienv) img filename w of
             Inl e \<Rightarrow> Raised e w
           | Inr w' \<Rightarrow> print_line ienv (confirmation filename sz) w'))"

text \<open>Lines 42 to 44: the loop stops at the first exception, with the world it has reached.\<close>

fun create_all_io :: "io_env \<Rightarrow> int list \<Rightarrow> world \<Rightarrow> world outcome" where
  "create_all_io ienv [] w = Returned w"
| "create_all_io ienv (sz # rest) w =
     (case create_icon_io ienv sz (icon_filename sz) w of
        Raised e w' \<Rightarrow> Raised e w'
      | Returned w' \<Rightarrow> create_all_io ienv rest w')"

definition main_io :: "io_env \<Rightarrow> world \<Rightarrow> world outcome" where
  "main_io ienv w = create_all_io ienv sizes w"

definition prints_ok :: "io_env \<Rightarrow> bool" where
  "prints_ok ienv \<longleftrightarrow> (\<forall>line. print_error ienv line = None)"

section \<open>Lemmas\<close>

text \<open>Drawing reads only the font part of the host, which the extension keeps.\<close>

lemma render_icon_truncate: "render_icon (env.truncate ienv) sz = render_icon ienv sz"
  by (simp add: render_icon_def select_font_def text_size_def draw_text_def truetype_def textbbox_def
                env.truncate_def Let_def split: sum.split)

lemma write_error_truncate [simp]: "write_error (env.truncate ienv) = write_error ienv"
  by (simp add: env.truncate_def)

lemma create_icon_io_prints_ok:
  "prints_ok ienv \<Longrightarrow>
   create_icon_io ienv sz filename w =
     (case create_icon (env.truncate ienv) sz filename w of Inl e \<Rightarrow> Raised e w | Inr w' \<Rightarrow> Returned w')"
  by (simp add: prints_ok_def create_icon_io_def create_icon_def print_line_def render_icon_truncate
           split: sum.split)

lemma create_icon_io_cases:
  "create_icon_io ienv sz filename w = r \<Longrightarrow>
     (\<exists>e. render_icon ienv sz = Inl e \<and> r = Raised e w)
   \<or> (\<exists>img e. render_icon ienv sz = Inr img \<and> write_error ienv filename = Some e \<and> r = Raised e w)
   \<or> (\<exists>img e. render_icon ienv sz = Inr img \<and> sz = 0 \<and> r = Raised e w)
   \<or> (\<exists>img. render_icon ienv sz = Inr img \<and> 0 < sz \<and> write_error ienv filename = None
        \<and> r = print_line ienv (confirmation filename sz) (w\<lparr>files := (files w)(filename \<mapsto> img)\<rparr>))"
  by (auto simp: create_icon_io_def save_png_def render_icon_empty dest: render_icon_Inr split: sum.splits option.splits if_splits)

lemma log_ok_create_icon_io:
  assumes "log_ok w" and "create_icon_io ienv sz (icon_filename sz) w = r"
    and "r = Returned w' \<or> r = Raised e w'"
  shows "log_ok w'"
  using create_icon_io_cases [OF assms(2)]
proof (elim disjE exE conjE)
  fix img assume img: "render_icon ienv sz = Inr img"
    and r: "r = print_line ienv (confirmation (icon_filename sz) sz) (w\<lparr>files := (files w)(icon_filename sz \<mapsto> img)\<rparr>)"
  have d: "im_width img = nat sz" "im_height img = nat sz" using render_icon_Inr [OF img] by simp_all
  let ?w1 = "w\<lparr>files := (files w)(icon_filename sz \<mapsto> img)\<rparr>"
  have "log_ok ?w1" by (rule log_ok_save [OF assms(1) d])
  moreover have "log_ok (?w1\<lparr>stdout := stdout ?w1 @ [confirmation (icon_filename sz) sz]\<rparr>)"
    using log_ok_print [OF calculation _ d] by simp
  ultimately show ?thesis using assms(3) r by (auto simp: print_line_def split: option.splits)
qed (use assms(1,3) in auto)

lemma create_all_io_log_ok:
  "log_ok w \<Longrightarrow> create_all_io ienv ss w = Returned w' \<or> create_all_io ienv ss w = Raised e w' \<Longrightarrow> log_ok w'"
proof (induction ss arbitrary: w)
  case Nil
  then show ?case by simp
next
  case (Cons sz ss)
  show ?case
  proof (cases "create_icon_io ienv sz (icon_filename sz) w")
    case (Raised e' w1)
    with Cons.prems show ?thesis by (auto intro: log_ok_create_icon_io)
  next
    case (Returned w1)
    with Cons.prems have "log_ok w1" by (blast intro: log_ok_create_icon_io)
    with Cons.IH Cons.prems Returned show ?thesis by simp
  qed
qed

section \<open>Properties\<close>

text \<open>
  When \<open>print\<close> never fails, the script with failing prints is the script of
  \<open>Driver\<close>: the loop returns or raises with the same world.
\<close>

lemma create_all_io_refines:
  assumes "prints_ok ienv"
  shows "create_all_io ienv ss w = create_all (env.truncate ienv) ss w"
proof (induction ss arbitrary: w)
  case Nil
  then show ?case by simp
next
  case (Cons sz ss)
  then show ?case by (simp add: create_icon_io_prints_ok [OF assms] split: sum.split)
qed

text \<open>
  C25. A call that raises has printed nothing. Either nothing was written (the drawing
  or the save failed), or the icon was written and it is the print of line 36 that
  raised: a file without its confirmation line.
\<close>

theorem create_icon_io_raised:
  assumes "create_icon_io ienv sz filename w = Raised e w'"
  shows "stdout w' = stdout w
       \<and> (files w' = files w
          \<or> (\<exists>img. render_icon ienv sz = Inr img \<and> files w' = (files w)(filename \<mapsto> img)
                  \<and> print_error ienv (confirmation filename sz) = Some e))"
  using create_icon_io_cases [OF assms] by (auto simp: print_line_def split: option.splits)

text \<open>
  C26. If the first print fails, \<open>main\<close> ends with \<open>icon16.png\<close> written and nothing
  printed: the exception of line 36 leaves a file the report never mentions.
\<close>

theorem main_io_first_print_fails:
  assumes "write_error ienv (icon_filename 16) = None"
    and "print_error ienv (confirmation (icon_filename 16) 16) = Some e"
  shows "\<exists>img. render_icon ienv 16 = Inr img
            \<and> main_io ienv w = Raised e (w\<lparr>files := (files w)(icon_filename 16 \<mapsto> img)\<rparr>)"
proof -
  obtain img where img: "render_icon ienv 16 = Inr img"
    using render_icon_eq [of ienv 16] by auto
  then show ?thesis
    using assms by (simp add: main_io_def sizes_def create_icon_io_def save_png_def print_line_def
                              render_icon_empty [OF img])
qed

text \<open>
  C27. Even when prints fail, the report never lies: every line printed when \<open>main\<close>
  ends, returned or raised, names an icon file of the world with the side it reports.
\<close>

theorem main_io_log_faithful:
  assumes "log_ok w" and "main_io ienv w = Returned w' \<or> main_io ienv w = Raised e w'"
  shows "log_ok w'"
  using create_all_io_log_ok [OF assms(1)] assms(2) by (simp add: main_io_def)

end
