(* ===== verification/Png_Filter.thy ===== *)
theory Png_Filter
  imports Raster
begin

text \<open>
  The row filters of the PNG format, as the encoder behind \<open>img.save(filename, 'PNG')\<close>
  (line 35) applies them to each scanline of an \<open>RGBA\<close> image before compression, and
  as a decoder undoes them. Not code of the repository: modelled from the PNG
  specification (filter method 0, five filter types, four bytes per pixel). A filtered
  byte is the raw byte minus a prediction from the byte to its left, the byte above, and
  the byte above-left, modulo 256; reconstruction adds the prediction back, left to right,
  using the bytes already reconstructed. The lemmas: reconstruction inverts filtering
  for every filter type and every previous row, the wrap-around of the 8-bit arithmetic
  included, and a pixel row packs into bytes and back.
\<close>

section \<open>Filter types and predictors\<close>

datatype filter_type = FNone | FSub | FUp | FAverage | FPaeth

primrec filter_code :: "filter_type \<Rightarrow> byte" where
  "filter_code FNone = 0"
| "filter_code FSub = 1"
| "filter_code FUp = 2"
| "filter_code FAverage = 3"
| "filter_code FPaeth = 4"

definition filter_of_code :: "byte \<Rightarrow> filter_type option" where
  "filter_of_code b =
     (if b = 0 then Some FNone else if b = 1 then Some FSub else if b = 2 then Some FUp
      else if b = 3 then Some FAverage else if b = 4 then Some FPaeth else None)"

text \<open>The Paeth predictor, computed on unbounded integers as the specification requires.\<close>

definition paeth :: "byte \<Rightarrow> byte \<Rightarrow> byte \<Rightarrow> byte" where
  "paeth a b c =
     (let p = int (unat a) + int (unat b) - int (unat c);
          pa = \<bar>p - int (unat a)\<bar>; pb = \<bar>p - int (unat b)\<bar>; pc = \<bar>p - int (unat c)\<bar>
      in if pa \<le> pb \<and> pa \<le> pc then a else if pb \<le> pc then b else c)"

primrec predict :: "filter_type \<Rightarrow> byte \<Rightarrow> byte \<Rightarrow> byte \<Rightarrow> byte" where
  "predict FNone a b c = 0"
| "predict FSub a b c = a"
| "predict FUp a b c = b"
| "predict FAverage a b c = word_of_nat ((unat a + unat b) div 2)"
| "predict FPaeth a b c = paeth a b c"

text \<open>The byte one pixel (four bytes) to the left, or 0 at the start of the row.\<close>

definition left_byte :: "byte list \<Rightarrow> nat \<Rightarrow> byte" where
  "left_byte xs i = (if 4 \<le> i then xs ! (i - 4) else 0)"

section \<open>Filtering and reconstruction\<close>

definition filter_row :: "filter_type \<Rightarrow> byte list \<Rightarrow> byte list \<Rightarrow> byte list" where
  "filter_row t prev cur =
     map (\<lambda>i. cur ! i - predict t (left_byte cur i) (prev ! i) (left_byte prev i)) [0..<length cur]"

definition unfilter_step :: "filter_type \<Rightarrow> byte list \<Rightarrow> byte list \<Rightarrow> byte list \<Rightarrow> nat \<Rightarrow> byte list" where
  "unfilter_step t prev filt r i = r @ [filt ! i + predict t (left_byte r i) (prev ! i) (left_byte prev i)]"

definition unfilter_row :: "filter_type \<Rightarrow> byte list \<Rightarrow> byte list \<Rightarrow> byte list" where
  "unfilter_row t prev filt = foldl (unfilter_step t prev filt) [] [0..<length filt]"

section \<open>Pixels as bytes\<close>

definition px_bytes :: "rgba \<Rightarrow> byte list" where
  "px_bytes p = [ch_r p, ch_g p, ch_b p, ch_a p]"

definition row_bytes :: "rgba list \<Rightarrow> byte list" where
  "row_bytes ps = concat (map px_bytes ps)"

definition bytes_row :: "nat \<Rightarrow> byte list \<Rightarrow> rgba list" where
  "bytes_row w bs =
     map (\<lambda>i. \<lparr>ch_r = bs ! (4 * i), ch_g = bs ! (4 * i + 1), ch_b = bs ! (4 * i + 2), ch_a = bs ! (4 * i + 3)\<rparr>)
       [0..<w]"

section \<open>Lemmas\<close>

lemma filter_of_code_filter_code [simp]: "filter_of_code (filter_code t) = Some t"
  by (cases t) (simp_all add: filter_of_code_def)

lemma length_filter_row [simp]: "length (filter_row t prev cur) = length cur"
  by (simp add: filter_row_def)

lemma left_byte_take: "k \<le> length xs \<Longrightarrow> left_byte (take k xs) k = left_byte xs k"
  by (simp add: left_byte_def)

lemma unfilter_prefix:
  "k \<le> length cur \<Longrightarrow> foldl (unfilter_step t prev (filter_row t prev cur)) [] [0..<k] = take k cur"
proof (induction k)
  case 0
  then show ?case by simp
next
  case (Suc k)
  then have k: "k < length cur" by simp
  have IH: "foldl (unfilter_step t prev (filter_row t prev cur)) [] [0..<k] = take k cur"
    using k by (intro Suc.IH) simp
  have "foldl (unfilter_step t prev (filter_row t prev cur)) [] [0..<Suc k]
        = take k cur @ [filter_row t prev cur ! k
                          + predict t (left_byte (take k cur) k) (prev ! k) (left_byte prev k)]"
    by (simp add: IH unfilter_step_def)
  also have "\<dots> = take k cur @ [cur ! k]"
    using k by (simp add: filter_row_def left_byte_take)
  also have "\<dots> = take (Suc k) cur" using k by (simp add: take_Suc_conv_app_nth)
  finally show ?case .
qed

lemma unfilter_filter_row: "unfilter_row t prev (filter_row t prev cur) = cur"
  using unfilter_prefix [of "length cur" cur t prev] by (simp add: unfilter_row_def)

lemma length_px_bytes [simp]: "length (px_bytes p) = 4"
  by (simp add: px_bytes_def)

lemma row_bytes_Cons: "row_bytes (p # ps) = px_bytes p @ row_bytes ps"
  by (simp add: row_bytes_def)

lemma length_row_bytes [simp]: "length (row_bytes ps) = 4 * length ps"
  by (induction ps) (simp_all add: row_bytes_def)

lemma row_bytes_nth:
  "i < length ps \<Longrightarrow> j < 4 \<Longrightarrow> row_bytes ps ! (4 * i + j) = px_bytes (ps ! i) ! j"
proof (induction ps arbitrary: i)
  case Nil
  then show ?case by simp
next
  case (Cons p ps)
  show ?case
  proof (cases i)
    case 0
    with Cons.prems show ?thesis by (simp add: row_bytes_Cons nth_append)
  next
    case (Suc i')
    have "4 * i + j = 4 + (4 * i' + j)" using Suc by simp
    then show ?thesis using Cons Suc by (simp add: row_bytes_Cons nth_append)
  qed
qed

lemma bytes_row_row_bytes: "bytes_row (length ps) (row_bytes ps) = ps"
proof (rule nth_equalityI)
  show "length (bytes_row (length ps) (row_bytes ps)) = length ps" by (simp add: bytes_row_def)
next
  fix i assume "i < length (bytes_row (length ps) (row_bytes ps))"
  then have i: "i < length ps" by (simp add: bytes_row_def)
  have "row_bytes ps ! (4 * i + j) = px_bytes (ps ! i) ! j" if "j < 4" for j
    using row_bytes_nth [OF i that] .
  from this [of 0] this [of 1] this [of 2] this [of 3] i
  show "bytes_row (length ps) (row_bytes ps) ! i = ps ! i"
    by (simp add: bytes_row_def px_bytes_def)
qed

end
