(* ===== verification/Png_Format.thy ===== *)
theory Png_Format
  imports Png_Filter
begin

unbundle bit_operations_syntax

text \<open>
  The bytes of the file \<open>img.save(filename, 'PNG')\<close> writes (line 35), as Pillow's PNG
  plugin lays them out for an \<open>RGBA\<close> image: the signature, an \<open>IHDR\<close> chunk with the
  width and the height as big-endian 32-bit words, bit depth 8 and colour type 6, the
  filtered scanlines in \<open>IDAT\<close> chunks (one per buffer the encoder fills), and \<open>IEND\<close>;
  every chunk is its length, its type, its data and the CRC-32 of type and data. Not
  code of the repository: modelled from the PNG specification. The \<open>IDAT\<close> data is
  modelled by what the zlib stream decompresses to (zlib is lossless and not modelled);
  the filter of each row and the size of the buffers are parameters, since the encoder's
  choice of them does not change the image. The lemmas: the 32-bit fields and the chunk
  stream read back, and decoding the bytes of an image gives the image.
\<close>

section \<open>Big-endian words and the CRC\<close>

definition be32 :: "32 word \<Rightarrow> byte list" where
  "be32 x = [ucast (drop_bit 24 x), ucast (drop_bit 16 x), ucast (drop_bit 8 x), ucast x]"

definition be32_dec :: "byte list \<Rightarrow> 32 word" where
  "be32_dec bs = push_bit 24 (ucast (bs ! 0)) OR push_bit 16 (ucast (bs ! 1))
                 OR push_bit 8 (ucast (bs ! 2)) OR ucast (bs ! 3)"

text \<open>CRC-32 (the polynomial of zlib's \<open>crc32\<close>, reflected), one bit at a time.\<close>

fun crc_bits :: "nat \<Rightarrow> 32 word \<Rightarrow> 32 word" where
  "crc_bits 0 c = c"
| "crc_bits (Suc n) c = crc_bits n (if bit c 0 then drop_bit 1 c XOR 0xEDB88320 else drop_bit 1 c)"

definition crc_byte :: "32 word \<Rightarrow> byte \<Rightarrow> 32 word" where
  "crc_byte c b = crc_bits 8 (c XOR ucast b)"

definition crc32 :: "byte list \<Rightarrow> 32 word" where
  "crc32 bs = NOT (foldl crc_byte (NOT 0) bs)"

section \<open>Chunks\<close>

definition ascii_bytes :: "string \<Rightarrow> byte list" where
  "ascii_bytes s = map (\<lambda>c. word_of_nat (of_char c)) s"

definition chunk_bytes :: "byte list \<Rightarrow> byte list \<Rightarrow> byte list" where
  "chunk_bytes ty data = be32 (word_of_nat (length data)) @ ty @ data @ be32 (crc32 (ty @ data))"

definition png_signature :: "byte list" where
  "png_signature = [137, 80, 78, 71, 13, 10, 26, 10]"

text \<open>The chunk stream read back: length, type, data, and a CRC that must match.\<close>

function parse_chunks :: "byte list \<Rightarrow> (byte list \<times> byte list) list option" where
  "parse_chunks bs =
     (if bs = [] then Some []
      else if length bs < 12 then None
      else
        (let n = unat (be32_dec (take 4 bs)); ty = take 4 (drop 4 bs); rest = drop 8 bs
         in if length rest < n + 4 then None
            else if be32_dec (take 4 (drop n rest)) \<noteq> crc32 (ty @ take n rest) then None
            else (case parse_chunks (drop (n + 4) rest) of
                    None \<Rightarrow> None
                  | Some cs \<Rightarrow> Some ((ty, take n rest) # cs))))"
  by pat_completeness auto
termination
  by (relation "measure length") auto

declare parse_chunks.simps [simp del]

section \<open>The encoder\<close>

definition ihdr_data :: "image \<Rightarrow> byte list" where
  "ihdr_data img = be32 (word_of_nat (im_width img)) @ be32 (word_of_nat (im_height img)) @ [8, 6, 0, 0, 0]"

text \<open>Each row: its filter type byte, then the row filtered against the row above it.\<close>

fun enc_rows :: "(nat \<Rightarrow> filter_type) \<Rightarrow> nat \<Rightarrow> byte list \<Rightarrow> byte list list \<Rightarrow> byte list" where
  "enc_rows ch j prev [] = []"
| "enc_rows ch j prev (r # rs) = (filter_code (ch j) # filter_row (ch j) prev r) @ enc_rows ch (Suc j) r rs"

definition scanlines :: "(nat \<Rightarrow> filter_type) \<Rightarrow> image \<Rightarrow> byte list" where
  "scanlines ch img = enc_rows ch 0 (replicate (4 * im_width img) 0) (map row_bytes (im_px img))"

fun split_chunks :: "nat \<Rightarrow> byte list \<Rightarrow> byte list list" where
  "split_chunks n xs =
     (if xs = [] then [] else if n = 0 then [xs] else take n xs # split_chunks n (drop n xs))"

declare split_chunks.simps [simp del]

definition png_chunks :: "(nat \<Rightarrow> filter_type) \<Rightarrow> nat \<Rightarrow> image \<Rightarrow> (byte list \<times> byte list) list" where
  "png_chunks ch n img =
     [(ascii_bytes ''IHDR'', ihdr_data img)]
     @ map (\<lambda>d. (ascii_bytes ''IDAT'', d)) (split_chunks n (scanlines ch img))
     @ [(ascii_bytes ''IEND'', [])]"

definition png_encode :: "(nat \<Rightarrow> filter_type) \<Rightarrow> nat \<Rightarrow> image \<Rightarrow> byte list" where
  "png_encode ch n img = png_signature @ concat (map (\<lambda>(ty, d). chunk_bytes ty d) (png_chunks ch n img))"

section \<open>The decoder\<close>

definition decode_ihdr :: "byte list \<Rightarrow> (nat \<times> nat) option" where
  "decode_ihdr d =
     (if length d = 13 \<and> drop 8 d = [8, 6, 0, 0, 0]
      then Some (unat (be32_dec (take 4 d)), unat (be32_dec (take 4 (drop 4 d)))) else None)"

fun dec_rows :: "nat \<Rightarrow> byte list \<Rightarrow> nat \<Rightarrow> byte list \<Rightarrow> byte list list option" where
  "dec_rows w prev 0 data = (if data = [] then Some [] else None)"
| "dec_rows w prev (Suc k) data =
     (case data of
        [] \<Rightarrow> None
      | c # rest \<Rightarrow>
          (case filter_of_code c of
             None \<Rightarrow> None
           | Some t \<Rightarrow>
               if length rest < 4 * w then None
               else (let row = unfilter_row t prev (take (4 * w) rest)
                     in case dec_rows w row k (drop (4 * w) rest) of
                          None \<Rightarrow> None
                        | Some rows \<Rightarrow> Some (row # rows))))"

definition png_decode :: "byte list \<Rightarrow> image option" where
  "png_decode bs =
     (if take 8 bs \<noteq> png_signature then None
      else case parse_chunks (drop 8 bs) of
        None \<Rightarrow> None
      | Some [] \<Rightarrow> None
      | Some ((ty, hdr) # rest) \<Rightarrow>
          (if ty \<noteq> ascii_bytes ''IHDR'' \<or> rest = [] \<or> last rest \<noteq> (ascii_bytes ''IEND'', [])
              \<or> \<not> list_all (\<lambda>(t, _). t = ascii_bytes ''IDAT'') (butlast rest) then None
           else case decode_ihdr hdr of
             None \<Rightarrow> None
           | Some (w, h) \<Rightarrow>
               (case dec_rows w (replicate (4 * w) 0) h (concat (map snd (butlast rest))) of
                  None \<Rightarrow> None
                | Some rows \<Rightarrow> Some \<lparr>im_width = w, im_height = h, im_px = map (bytes_row w) rows\<rparr>)))"

section \<open>Lemmas on words and chunks\<close>

lemma length_be32 [simp]: "length (be32 x) = 4"
  by (simp add: be32_def)

lemma be32_dec_be32 [simp]: "be32_dec (be32 x) = x"
  unfolding be32_dec_def be32_def
  apply (rule bit_word_eqI)
  subgoal for n by (cases "n < 8"; cases "n < 16"; cases "n < 24") (auto simp: bit_simps)
  done

lemma be32_dec_take [simp]: "be32_dec (take 4 (be32 x @ ys)) = x"
  by simp

lemma unat_word_of_nat_32: "n < 2 ^ 32 \<Longrightarrow> unat (word_of_nat n :: 32 word) = n"
  by (simp add: unat_of_nat)

lemma parse_chunks_chunk:
  assumes "length ty = 4" and "length d < 2 ^ 32"
  shows "parse_chunks (chunk_bytes ty d @ rest) =
           (case parse_chunks rest of None \<Rightarrow> None | Some cs \<Rightarrow> Some ((ty, d) # cs))"
proof -
  define bs where "bs = chunk_bytes ty d @ rest"
  have "length bs = 12 + length d + length rest" using assms(1) by (simp add: bs_def chunk_bytes_def)
  then have ne: "bs \<noteq> []" and len: "\<not> length bs < 12" by auto
  have n: "unat (be32_dec (take 4 bs)) = length d"
    using assms(2) by (simp add: bs_def chunk_bytes_def unat_word_of_nat_32)
  have ty: "take 4 (drop 4 bs) = ty" and r: "drop 8 bs = d @ be32 (crc32 (ty @ d)) @ rest"
    using assms(1) by (simp_all add: bs_def chunk_bytes_def)
  have "parse_chunks bs = (case parse_chunks rest of None \<Rightarrow> None | Some cs \<Rightarrow> Some ((ty, d) # cs))"
    by (subst parse_chunks.simps) (simp add: ne len n ty r Let_def split: option.split)
  then show ?thesis by (simp add: bs_def)
qed

lemma parse_chunks_concat:
  "list_all (\<lambda>(ty, d). length ty = 4 \<and> length d < 2 ^ 32) cs \<Longrightarrow>
   parse_chunks (concat (map (\<lambda>(ty, d). chunk_bytes ty d) cs)) = Some cs"
proof (induction cs)
  case Nil
  then show ?case by (simp add: parse_chunks.simps)
next
  case (Cons c cs)
  then show ?case by (cases c) (simp add: parse_chunks_chunk)
qed

lemma concat_split_chunks: "concat (split_chunks n xs) = xs"
  by (induction n xs rule: split_chunks.induct) (subst split_chunks.simps, simp)

lemma split_chunks_length: "0 < n \<Longrightarrow> d \<in> set (split_chunks n xs) \<Longrightarrow> length d \<le> n"
proof (induction n xs rule: split_chunks.induct)
  case (1 n xs)
  then show ?case by (subst (asm) split_chunks.simps) (auto split: if_splits)
qed

lemma ascii_chunk_types:
  "length (ascii_bytes ''IHDR'') = 4" "length (ascii_bytes ''IDAT'') = 4" "length (ascii_bytes ''IEND'') = 4"
  "ascii_bytes ''IHDR'' \<noteq> ascii_bytes ''IEND''"
  by (simp_all add: ascii_bytes_def)

section \<open>Lemmas on rows\<close>

lemma dec_rows_enc_rows:
  "\<forall>r \<in> set rs. length r = 4 * w \<Longrightarrow> dec_rows w prev (length rs) (enc_rows ch j prev rs) = Some rs"
proof (induction rs arbitrary: prev j)
  case Nil
  then show ?case by simp
next
  case (Cons r rs)
  then show ?case by (simp add: unfilter_filter_row Let_def)
qed

lemma decode_ihdr_data:
  "im_width img < 2 ^ 32 \<Longrightarrow> im_height img < 2 ^ 32 \<Longrightarrow>
   decode_ihdr (ihdr_data img) = Some (im_width img, im_height img)"
  by (simp add: decode_ihdr_def ihdr_data_def unat_word_of_nat_32)

section \<open>The round trip\<close>

lemma png_chunks_ok:
  "0 < n \<Longrightarrow> n < 2 ^ 32 \<Longrightarrow> list_all (\<lambda>(ty, d). length ty = 4 \<and> length d < 2 ^ 32) (png_chunks ch n img)"
  by (auto simp: png_chunks_def list_all_iff ascii_chunk_types ihdr_data_def dest!: split_chunks_length)

lemma scanlines_dec_rows:
  assumes "wf_image img"
  shows "dec_rows (im_width img) (replicate (4 * im_width img) 0) (im_height img) (scanlines ch img)
           = Some (map row_bytes (im_px img))"
proof -
  have "length (map row_bytes (im_px img)) = im_height img"
    and "\<forall>r \<in> set (map row_bytes (im_px img)). length r = 4 * im_width img"
    using assms by (auto simp: wf_image_def rectangular_def)
  then show ?thesis using dec_rows_enc_rows by (fastforce simp: scanlines_def)
qed

lemma bytes_rows_of_image:
  assumes "wf_image img"
  shows "map (bytes_row (im_width img) \<circ> row_bytes) (im_px img) = im_px img"
proof (rule map_idI)
  fix r assume "r \<in> set (im_px img)"
  then have "length r = im_width img" using assms by (auto simp: wf_image_def rectangular_def)
  then show "(bytes_row (im_width img) \<circ> row_bytes) r = r" using bytes_row_row_bytes [of r] by simp
qed

lemma png_decode_encode:
  assumes "wf_image img" "im_width img < 2 ^ 32" "im_height img < 2 ^ 32" "0 < n" "n < 2 ^ 32"
  shows "png_decode (png_encode ch n img) = Some img"
proof -
  let ?idat = "map (\<lambda>d. (ascii_bytes ''IDAT'', d)) (split_chunks n (scanlines ch img))"
  let ?rest = "?idat @ [(ascii_bytes ''IEND'', [])]"
  have sig: "take 8 (png_encode ch n img) = png_signature"
    by (simp add: png_encode_def png_signature_def)
  have parse: "parse_chunks (drop 8 (png_encode ch n img)) = Some ((ascii_bytes ''IHDR'', ihdr_data img) # ?rest)"
    using parse_chunks_concat [OF png_chunks_ok [OF assms(4,5)]]
    by (simp add: png_encode_def png_signature_def png_chunks_def)
  have idat: "list_all (\<lambda>(t, _). t = ascii_bytes ''IDAT'') ?idat" by (simp add: list_all_iff)
  have cat: "concat (map snd ?idat) = scanlines ch img" by (simp add: comp_def concat_split_chunks)
  have img: "\<lparr>im_width = im_width img, im_height = im_height img, im_px = im_px img\<rparr> = img" by simp
  show ?thesis
    using sig parse idat cat assms(1)
    by (simp add: png_decode_def ascii_chunk_types decode_ihdr_data [OF assms(2,3)] scanlines_dec_rows
                  bytes_rows_of_image img)
qed

text \<open>The model against the format: the \<open>IEND\<close> chunk every PNG file ends with.\<close>

lemma png_iend_bytes:
  "chunk_bytes (ascii_bytes ''IEND'') [] = [0, 0, 0, 0, 73, 69, 78, 68, 0xAE, 0x42, 0x60, 0x82]"
  by code_simp

end
