(* ===== verification/Spec2Isabelle.thy ===== *)
theory Spec2Isabelle
  imports Trace Store Io Png_Format
begin

text \<open>
  \<^bold>\<open>A verification model of the placeholder-icon generator\<close>
  (\<open>src/icons/create_icons.py\<close> of the Dremio/Grafana Chrome extension).

  \<^bold>\<open>The program.\<close> One script. \<open>main()\<close> (lines 38 to 44) calls
  \<open>create_icon(size, "icon{size}.png")\<close> for the sizes 16, 32, 48 and 128 in turn.
  \<open>create_icon\<close> (lines 9 to 36) allocates a blue \<open>RGBA\<close> square with
  \<open>Image.new\<close>, opens Arial at \<open>max(size // 3, 12)\<close> points and falls back to the
  default font on any exception, measures the text \<open>"U"\<close> with \<open>textbbox\<close>, draws it
  in white at the centred origin \<open>((size - w) // 2, (size - h) // 2)\<close>, saves the PNG
  and prints a confirmation line. Nothing is shared between the calls but the file system
  and standard output; an exception of a call ends the run.

  \<^bold>\<open>The theories.\<close>
  \<^item> \<open>Icon_Prelude\<close>: the byte type of a channel, the exceptions (\<open>exc\<close>), rectangular
    nested lists.
  \<^item> \<open>Raster\<close>: the imaging library's raster as the script uses it (not code of the
    repository, modelled from the library's behaviour): \<open>image\<close> with its rows of
    \<open>rgba\<close> pixels, \<open>image_new\<close> (\<open>Image.new\<close>), \<open>getpixel\<close>, and
    \<open>draw_bitmap\<close>, the mask blend \<open>ImageDraw.text\<close> reduces to, with the C macros
    \<open>DIV255\<close> (\<open>div255\<close>) and \<open>BLEND\<close> (\<open>blend_ch\<close>) at their widths: 8-bit
    channels as \<open>8 word\<close>, the intermediate sums as \<open>nat\<close>. Its lemmas: the loops keep
    the image rectangular, \<open>draw_bitmap\<close> refines the per-pixel \<open>draw_spec\<close>,
    \<open>BLEND\<close> is the rounded weighted mean and never wraps, \<open>Image.new\<close> fails exactly
    on a negative side; the icon-level claims C15 and C16 rest on them.
  \<^item> \<open>Font\<close>: \<open>truetype\<close>, \<open>load_default\<close>, \<open>textbbox\<close> and \<open>draw_text\<close>. The
    rasteriser is the host's font system, a parameter \<open>font_env\<close>: which font files
    open and the mask (\<open>glyph\<close>: offset, size, coverage bytes) a font gives for a text.
  \<^item> \<open>Py_Str\<close>: Python's \<open>str\<close> of an \<open>int\<close> (the f-strings of lines 36 and 43) and
    its inverse on decimal literals.
  \<^item> \<open>Icon\<close>: \<open>create_icon\<close> as the composition of its steps \<open>font_size\<close>,
    \<open>select_font\<close>, \<open>text_size\<close>, \<open>text_origin\<close>, \<open>render_icon\<close> (lines 11 to 32),
    \<open>save_png\<close> (line 35) and \<open>confirmation\<close> (line 36), over a \<open>world\<close> of written
    files and printed lines and an \<open>env\<close> that extends \<open>font_env\<close> with the exception
    opening a file raises. \<open>save_png\<close> is Pillow's \<open>Image.save\<close> as the script
    reaches it: the open is checked first, then the encoder raises \<open>SystemError\<close> on an
    image without pixels (size 0), else the file is written. Its lemmas: the result of a
    call on every branch (C1, C2, the size-0 error included), the palette and opacity of
    every pixel (C3), the background outside the glyph's box (C4), where the glyph lands
    (C5), the font fallback (C6), the font size (C7), re-running a call (C8), the rendered
    icon as the per-pixel blend specification (C15), the exact colour of a covered pixel
    (C16), the background border of an icon whose glyph leaves a margin (C18), the floor
    rounding of the origin, also when the text is wider than the icon (C28).
  \<^item> \<open>Driver\<close>: \<open>create_all\<close> (the loop) and \<open>main\<close>, with an \<open>outcome\<close>
    (\<open>Returned\<close> or \<open>Raised\<close>, each with the world, since written files survive an
    exception). Its lemmas: \<open>main\<close> returns and writes the four icons when the files can
    be written (C9), it stops at the first failing write (C10), the order of the sizes does
    not change the files (C11), a second run leaves the same files (C12), the file name
    determines the size (C13).
  \<^item> \<open>Driver_Loop\<close>: the same loop as a small-step machine: a \<open>loop_state\<close> holds
    the sizes still to do, the world and the exception on its way out; \<open>loop_step\<close> is
    one iteration (one rule for a call that returns, one for a call that raises), and the
    \<open>__main__\<close> guard is \<open>script\<close>. Its lemmas: the machine is deterministic, every
    run stops within four iterations (\<open>main_loop_terminates\<close>), a stopped state gives
    exactly \<open>main\<close>'s outcome (\<open>loop_refines_main\<close>), and every reachable state holds
    well-formed square icons of the sizes their names say (C17).
  \<^item> \<open>Report\<close>: the printed report, read back. \<open>parse_confirmation\<close> reads a line
    \<open>Created {filename} ({size}x{size})\<close>, splitting at the last opening parenthesis;
    \<open>log_ok\<close> says every printed line names an icon file of the world with the side the
    line reports. Its lemmas: the confirmation line reads back (C19), a run of \<open>main\<close>
    keeps the report faithful whether it returns or raises (C20), the report of a
    returning run is the four sizes in order (C21).
  \<^item> \<open>Trace\<close>: a run as the sequence of its effects. An \<open>event\<close> is a save (line 35)
    or a print (line 36); \<open>icon_events\<close> gives the events of one call in the order the
    code performs them, \<open>run_events\<close> those of the loop up to the first exception, and
    \<open>replay\<close> applies them to a world. Its lemmas: the world semantics of \<open>Icon\<close> and
    \<open>Driver\<close> is the replay of the trace (\<open>create_all_replay\<close>), and every trace,
    complete or cut short, is a sequence of save-then-print pairs in the order of the
    sizes (C22).
  \<^item> \<open>Store\<close>: \<open>create_icon\<close> with its Python objects in an explicit \<open>heap\<close> (a limit
    and a map from addresses to objects, as Imperative HOL's references): line 11
    allocates the image object (\<open>image_new_obj\<close>), line 12 a handle \<open>DrawObj\<close> that
    refers to it (\<open>draw_new\<close>), line 32 draws through the handle in place
    (\<open>draw_text_obj\<close>), line 35 saves what \<open>img\<close> refers to (\<open>save_obj\<close>). Its lemmas:
    the handle aliases the image and the saved file is the image drawn on (C23), a call
    allocates two fresh objects and leaves every earlier one untouched (C24). The loop of
    \<open>main\<close> through one store (\<open>create_all_obj\<close>, \<open>main_obj\<close>) computes the files
    and output \<open>create_all\<close> computes (\<open>create_all_obj_refines\<close>) and, over a run
    that returns, allocates eight objects and changes no earlier one (C29).
  \<^item> \<open>Io\<close>: the script when \<open>print\<close> can raise too. The host is extended
    (\<open>io_env\<close>, a record extension of \<open>env\<close>) with the exception a print raises;
    \<open>print_line\<close> is line 36, \<open>create_icon_io\<close> saves and then prints, and
    \<open>create_all_io\<close>/\<open>main_io\<close> stop at the first exception with the world reached.
    Its lemmas: with prints that never fail this is the loop of \<open>Driver\<close>
    (\<open>create_all_io_refines\<close>); a call that raises has printed nothing and wrote either
    nothing or its icon (C25); a first print that fails leaves \<open>icon16.png\<close> written
    and nothing printed (C26); the report stays faithful on every run (C27).
  \<^item> \<open>Png_Filter\<close> and \<open>Png_Format\<close>: the bytes line 35 writes (not code of the
    repository; modelled from the PNG specification and the library's PNG plugin): the
    five row filters on 8-bit words, whose reconstruction wraps modulo 256
    (\<open>filter_row\<close>, \<open>unfilter_row\<close>), big-endian 32-bit fields (\<open>be32\<close>), the bitwise
    CRC-32 (\<open>crc32\<close>, checked against the \<open>IEND\<close> chunk every PNG ends with), chunks,
    the encoder \<open>png_encode\<close> (a filter per row and an \<open>IDAT\<close> buffer size as
    parameters) and the decoder \<open>png_decode\<close>. It is a library of the imaging
    library's format, not of the script: its lemmas (the filters invert, the 32-bit
    fields and chunks read back, \<open>png_decode_encode\<close>: decoding the bytes of a
    well-formed image with sides below \<open>2^32\<close> gives the image) hold for every image,
    so no property of the script is stated on it. Its colour type is fixed at 6
    (\<open>RGBA\<close>), the only mode the script creates.
  \<^item> This theory: the icons a returning run leaves are square, opaque and in the palette
    (C14), and concrete scenarios on a host without the Arial file.

  \<^bold>\<open>Bounds and termination.\<close> Every loop of the model is structural recursion over a list
  (sizes, mask rows, mask values), and \<open>py_str\<close> terminates by a measure; no fuel is
  needed. The step relation of the loop is shown to stop by the length of the sizes still
  to do, which each step decreases (\<open>main_loop_terminates\<close>). The PNG chunk reader
  terminates by the length of its input, each chunk taking at least twelve bytes. The PNG
  header holds the sides in 32-bit fields, so the round trip assumes a side below
  \<open>2^32\<close>; the four sizes of the script are far below it. The channel arithmetic is bounded by \<open>255 * 255\<close>, which C16 rests on to show
  that \<open>DIV255\<close> is exact rounding and that the byte store does not truncate.

  \<^bold>\<open>Status.\<close> Every statement of the script is modelled: \<open>create_icon\<close> step by
  step, with its objects (\<open>Store\<close>) and with a failing print (\<open>Io\<close>); \<open>main\<close> as a
  function, as a step relation, as a trace of events and through the store; the guard of
  lines 46 and 47. The library calls are modelled as far as the script uses them (the
  \<open>RGBA\<close> raster, the text layer, the PNG bytes). The lines the map leaves out are the
  shebang, the docstring, the imports (\<open>import os\<close> is unused), comments and blank lines.

  \<^bold>\<open>Not modelled, and why.\<close> The shapes of glyphs (FreeType and the built-in bitmap
  font) and the placement of the mask against the \<open>textbbox\<close> anchor: they are data of the
  host's font system, not of the repository, so the model holds for every mask and offset
  the font system may return. \<open>textbbox\<close> is modelled as Pillow 9.2 and later computes
  it for both fonts; Pillow 8.0 to 9.1 raise \<open>ValueError\<close> at line 25 for the bitmap
  default font, which the model does not have. The blend of the mask is Pillow's
  \<open>fill_mask_L\<close> for an opaque destination (the background is opaque, so newer
  versions' alpha adjustment changes nothing here). The zlib
  compression of the PNG data: lossless, and the model keeps what it decompresses to. The
  encoder's heuristic for the filter of a row: a parameter, every choice decoding
  correctly. The encoder's \<open>struct.error\<close> on a side of \<open>2^32\<close> or more and optional
  chunks: unreachable from the four sizes of the script. The contents of a file after a
  save that fails: Pillow opens the file for writing before it encodes, and when the
  encoder raises (the size-0 \<open>SystemError\<close>, or a full disk) it removes the file only
  if the save created it; a file that existed before is left truncated or holding part
  of a PNG. The model's files map names to images and keeps the files unchanged on
  every exception, which is exact when the open fails or the file is new, and not for
  an existing file whose encoding fails. Outside
  \<open>Io\<close>, \<open>print\<close> is taken never to fail; \<open>Io\<close> shows that this is the case of its model
  where the print exception is absent. The process exit status and the traceback are the
  \<open>Raised\<close> outcome. Fractional text coordinates do not arise (the origin is an integer).
\<close>

section \<open>Scenarios\<close>

text \<open>
  A host without \<open>/System/Library/Fonts/Arial.ttf\<close> (any Linux machine): opening the
  font raises, the default font is used, and its \<open>"U"\<close> is a 4 by 5 mask drawn 1 pixel
  right of and 3 pixels below the text origin. Every file can be written.
\<close>

definition u_glyph :: glyph where
  "u_glyph =
     \<lparr>g_offset = (1, 3), g_size = (4, 5),
      g_mask = [[255, 0, 0, 255], [255, 0, 0, 255], [255, 0, 0, 255], [255, 0, 0, 255],
                [128, 255, 255, 128]]\<rparr>"

definition no_arial_env :: env where
  "no_arial_env =
     \<lparr>font_open = (\<lambda>_ _. Some (OSError ''cannot open resource'')),
      font_render = (\<lambda>_ _. u_glyph),
      write_error = (\<lambda>_. None)\<rparr>"

text \<open>The same host with \<open>icon48.png\<close> write-protected.\<close>

definition readonly_env :: env where
  "readonly_env =
     no_arial_env\<lparr>write_error := (\<lambda>f. if f = ''icon48.png'' then Some (OSError ''Permission denied'') else None)\<rparr>"

text \<open>The same host with standard output closed: every print raises, as a broken pipe does.\<close>

definition closed_stdout_env :: io_env where
  "closed_stdout_env = \<lparr>font_open = font_open no_arial_env, font_render = font_render no_arial_env,
                        write_error = write_error no_arial_env,
                        print_error = (\<lambda>_. Some (OSError ''Broken pipe''))\<rparr>"

text \<open>An object store with nothing allocated, and one holding an empty image at address 0.\<close>

definition empty_heap :: heap where
  "empty_heap = \<lparr>lim = 0, objs = Map.empty\<rparr>"

definition one_object_heap :: heap where
  "one_object_heap = \<lparr>lim = 1, objs = [0 \<mapsto> ImageObj (blank_icon 0)]\<rparr>"

definition empty_world :: world where
  "empty_world = \<lparr>files = Map.empty, stdout = []\<rparr>"

section \<open>Cross-component property\<close>

text \<open>
  C14. Every icon a returning run of \<open>main\<close> leaves is a square of its size whose pixels
  are all opaque and between the background blue and white.
\<close>

theorem main_icons_valid:
  assumes "main env w = Returned w'"
  shows "\<forall>sz \<in> set sizes. \<exists>img. files w' (icon_filename sz) = Some img
           \<and> im_width img = nat sz \<and> im_height img = nat sz \<and> all_pixels icon_palette img"
proof
  fix sz assume sz: "sz \<in> set sizes"
  have run: "create_all env sizes w = Returned w'" using assms by (simp add: main_def)
  from create_all_Returned_ok [OF run] sz obtain img where img: "render_icon env sz = Inr img"
    by (auto simp: icon_ok_def render_icon_eq)
  have "files w' (icon_filename sz) = Some img"
    using create_all_files(1) [OF run] sz img by simp
  with render_icon_Inr [OF img] render_icon_palette [OF img]
  show "\<exists>img. files w' (icon_filename sz) = Some img
           \<and> im_width img = nat sz \<and> im_height img = nat sz \<and> all_pixels icon_palette img"
    by blast
qed

section \<open>Scenario facts\<close>

lemma no_arial_font: "select_font no_arial_env sz = DefaultFont"
  by (simp add: select_font_def truetype_def load_default_def no_arial_env_def)

lemma no_arial_glyph: "font_render no_arial_env f t = u_glyph"
  by (simp add: no_arial_env_def)

lemma wf_u_glyph: "wf_glyph u_glyph"
  by (simp add: wf_glyph_def u_glyph_def rectangular_def)

lemma no_arial_render:
  "0 \<le> sz \<Longrightarrow> \<exists>img. render_icon no_arial_env sz = Inr img"
  by (simp add: render_icon_eq)

lemma no_arial_box: "glyph_box no_arial_env 16 = (7, 8, 11, 13)"
  by (simp add: glyph_box_def no_arial_font no_arial_glyph u_glyph_def text_origin_def text_size_eq)

lemma no_arial_origin: "(6, 5) = text_origin 16 (text_size no_arial_env (select_font no_arial_env 16))"
  by (simp add: text_origin_def text_size_eq no_arial_glyph u_glyph_def)

lemma no_arial_writes: "\<forall>sz \<in> set sizes. write_error no_arial_env (icon_filename sz) = None"
  by (simp add: no_arial_env_def)

text \<open>
  Where the glyph lands on that host, for the 16-pixel icon: lines 29 and 30 put the
  origin at \<open>(6, 5)\<close>, which would centre a 4 by 5 box, but the mask is drawn at the
  origin plus its offset, so the \<open>"U"\<close> starts at row 8: row 5, where the centred glyph
  would begin, is still background, and the bottom row of the glyph is row 12 of 16.
\<close>

theorem no_arial_glyph_off_centre:
  "\<exists>img. render_icon no_arial_env 16 = Inr img
         \<and> getpixel img 7 5 = Inr background \<and> getpixel img 7 8 = Inr white
         \<and> getpixel img 8 12 = Inr white"
proof -
  obtain img where img: "render_icon no_arial_env 16 = Inr img" using no_arial_render [of 16] by auto
  have dims: "im_width img = 16" "im_height img = 16" using render_icon_Inr [OF img] by simp_all
  have px: "im_px img ! j ! i =
              paint (cover (g_mask u_glyph) (int i - 7) (int j - 8)) background white"
    if "i < 16" "j < 16" for i j
    using render_icon_pixel [OF img _ _ no_arial_glyph [symmetric] no_arial_origin] that by (simp add: u_glyph_def)
  have "im_px img ! 5 ! 7 = background" "im_px img ! 8 ! 7 = white" "im_px img ! 12 ! 8 = white"
    using px [of 7 5] px [of 7 8] px [of 8 12]
    by (simp_all add: raster_simps u_glyph_def white_def)
  with img dims show ?thesis by (auto simp: getpixel_def)
qed

section \<open>Witnesses\<close>

theorem create_icon_success_witness:
  "\<exists>w'. create_icon no_arial_env 16 ''icon16.png'' empty_world = Inr w'
        \<and> stdout w' = [''Created icon16.png (16x16)'']
        \<and> (\<exists>img. files w' ''icon16.png'' = Some img \<and> im_width img = 16 \<and> im_height img = 16)"
proof -
  obtain img where img: "render_icon no_arial_env 16 = Inr img" using no_arial_render [of 16] by auto
  define w' where "w' = empty_world\<lparr>files := (files empty_world)(''icon16.png'' \<mapsto> img),
                      stdout := stdout empty_world @ [confirmation ''icon16.png'' 16]\<rparr>"
  have run: "create_icon no_arial_env 16 ''icon16.png'' empty_world = Inr w'"
    using img by (simp add: create_icon_Inr w'_def no_arial_env_def)
  have line: "confirmation ''icon16.png'' 16 = ''Created icon16.png (16x16)''" by code_simp
  from create_icon_success [OF run] run line show ?thesis
    by (auto simp: w'_def empty_world_def)
qed

theorem render_icon_palette_witness:
  "\<exists>img. render_icon no_arial_env 16 = Inr img \<and> all_pixels icon_palette img"
  using no_arial_render [of 16] render_icon_palette by auto

theorem render_icon_outside_glyph_witness:
  "\<exists>img. render_icon no_arial_env 16 = Inr img \<and> getpixel img 0 0 = Inr background"
proof -
  obtain img where img: "render_icon no_arial_env 16 = Inr img" using no_arial_render [of 16] by auto
  have "\<not> in_box (glyph_box no_arial_env 16) 0 0" by (simp add: no_arial_box in_box_def)
  with img show ?thesis
    using render_icon_outside_glyph [OF img, of 0 0] by (simp add: no_arial_font no_arial_glyph wf_u_glyph)
qed

theorem glyph_box_centre_witness:
  "(7::int) + 11 = 16 - (16 - 4) mod 2 + 2 * 1 \<and> (8::int) + 13 = 16 - (16 - 5) mod 2 + 2 * 3"
  using glyph_box_centre [OF no_arial_box refl] by (simp add: no_arial_font no_arial_glyph u_glyph_def)

theorem font_size_bounds_witness:
  "font_size 16 = 12 \<and> font_size 48 = 16 \<and> font_size 128 = 42"
  using font_size_bounds [of 16] font_size_bounds [of 48] font_size_bounds [of 128] by simp

theorem create_icon_rerun_witness:
  "\<exists>w1 w2. create_icon no_arial_env 32 ''icon32.png'' empty_world = Inr w1
          \<and> create_icon no_arial_env 32 ''icon32.png'' w1 = Inr w2 \<and> files w2 = files w1"
proof -
  obtain img where img: "render_icon no_arial_env 32 = Inr img" using no_arial_render [of 32] by auto
  have ok: "write_error no_arial_env ''icon32.png'' = None" by (simp add: no_arial_env_def)
  obtain w1 where r1: "create_icon no_arial_env 32 ''icon32.png'' empty_world = Inr w1"
    using img ok by (auto simp: create_icon_Inr)
  obtain w2 where r2: "create_icon no_arial_env 32 ''icon32.png'' w1 = Inr w2"
    using img ok by (auto simp: create_icon_Inr)
  from r1 r2 create_icon_rerun [OF r1 r2] show ?thesis by blast
qed

theorem main_success_witness:
  "\<exists>w'. main no_arial_env empty_world = Returned w'
        \<and> stdout w' = [''Created icon16.png (16x16)'', ''Created icon32.png (32x32)'',
                       ''Created icon48.png (48x48)'', ''Created icon128.png (128x128)'']"
  using main_success [OF no_arial_writes, of empty_world] by (auto simp: empty_world_def)

theorem create_all_stops_at_error_witness:
  "\<exists>w'. create_all readonly_env [16, 32] empty_world = Returned w'
        \<and> main readonly_env empty_world = Raised (OSError ''Permission denied'') w'"
proof -
  have ok: "\<forall>sz \<in> set [16, 32]. icon_ok readonly_env sz"
    by code_simp
  obtain w' where pre: "create_all readonly_env [16, 32] empty_world = Returned w'"
    using create_all_Returned [OF ok, of empty_world] by blast
  have name: "icon_filename 48 = ''icon48.png''" by code_simp
  have fail: "create_icon readonly_env 48 (icon_filename 48) w' = Inl (OSError ''Permission denied'')"
    by (simp add: name create_icon_def render_icon_eq save_png_def readonly_env_def)
  have "main readonly_env empty_world = create_all readonly_env ([16, 32] @ 48 # [128]) empty_world"
    by (simp add: main_def sizes_def)
  with create_all_stops_at_error [OF pre fail] pre show ?thesis by auto
qed

theorem create_all_reorder_files_witness:
  "\<exists>w1 w2. create_all no_arial_env [16, 128] empty_world = Returned w1
          \<and> create_all no_arial_env [128, 16, 16] empty_world = Returned w2 \<and> files w1 = files w2"
proof -
  have ok1: "\<forall>sz \<in> set [16, 128]. icon_ok no_arial_env sz"
    and ok2: "\<forall>sz \<in> set [128, 16, 16]. icon_ok no_arial_env sz"
    by (simp_all add: icon_ok_def no_arial_env_def)
  obtain w1 where r1: "create_all no_arial_env [16, 128] empty_world = Returned w1"
    using create_all_Returned [OF ok1, of empty_world] by blast
  obtain w2 where r2: "create_all no_arial_env [128, 16, 16] empty_world = Returned w2"
    using create_all_Returned [OF ok2, of empty_world] by blast
  have "set [16, 128] = set [128, 16, (16::int)]" by auto
  from create_all_reorder_files [OF this r1 r2] r1 r2 show ?thesis by blast
qed

theorem main_rerun_same_files_witness:
  "\<exists>w1 w2. main no_arial_env empty_world = Returned w1
          \<and> main no_arial_env w1 = Returned w2 \<and> files w2 = files w1"
proof -
  have ok: "\<forall>sz \<in> set sizes. icon_ok no_arial_env sz"
    by (simp add: icon_ok_def no_arial_env_def sizes_def)
  obtain w1 where r1: "main no_arial_env empty_world = Returned w1"
    using create_all_Returned [OF ok, of empty_world] by (auto simp: main_def)
  obtain w2 where r2: "main no_arial_env w1 = Returned w2"
    using create_all_Returned [OF ok, of w1] by (auto simp: main_def)
  from main_rerun_same_files [OF r1 r2] r1 r2 show ?thesis by blast
qed

theorem main_icons_valid_witness:
  "\<exists>w'. main no_arial_env empty_world = Returned w'
        \<and> (\<exists>img. files w' ''icon128.png'' = Some img \<and> im_width img = 128 \<and> all_pixels icon_palette img)"
proof -
  have ok: "\<forall>sz \<in> set sizes. icon_ok no_arial_env sz"
    by (simp add: icon_ok_def no_arial_env_def sizes_def)
  obtain w' where r: "main no_arial_env empty_world = Returned w'"
    using create_all_Returned [OF ok, of empty_world] by (auto simp: main_def)
  have name: "icon_filename 128 = ''icon128.png''" by code_simp
  have "(128::int) \<in> set sizes" by (simp add: sizes_def)
  with main_icons_valid [OF r] name r show ?thesis by fastforce
qed

theorem render_icon_refines_witness:
  "\<exists>img. render_icon no_arial_env 16 = Inr img \<and> img = draw_spec (blank_icon 16) 7 8 (g_mask u_glyph) white"
proof -
  obtain img where img: "render_icon no_arial_env 16 = Inr img" using no_arial_render [of 16] by auto
  from img render_icon_refines [OF img no_arial_glyph [symmetric] no_arial_origin] show ?thesis
    by (simp add: u_glyph_def)
qed

theorem icon_pixel_rounds_witness:
  "\<exists>img. render_icon no_arial_env 16 = Inr img
         \<and> unat (ch_r (im_px img ! 12 ! 7)) = 128 \<and> unat (ch_g (im_px img ! 12 ! 7)) = 189
         \<and> unat (ch_b (im_px img ! 12 ! 7)) = 221 \<and> ch_a (im_px img ! 12 ! 7) = 255"
proof -
  obtain img where img: "render_icon no_arial_env 16 = Inr img" using no_arial_render [of 16] by auto
  have cov: "cover (g_mask u_glyph) (int 7 - (6 + fst (g_offset u_glyph))) (int 12 - (5 + snd (g_offset u_glyph)))
               = Some 128"
    by (simp add: cover_def u_glyph_def)
  from img icon_pixel_rounds [OF img _ _ no_arial_glyph [symmetric] no_arial_origin cov] show ?thesis
    by simp
qed

lemma loop_reaches_final:
  "\<exists>s. (loop_step env)\<^sup>*\<^sup>* (loop_start w) s \<and> final s"
proof -
  obtain n t where "(loop_step env ^^ n) (loop_start w) t" "final t"
    using loop_final_within [of env "loop_start w"] by blast
  then show ?thesis by (blast dest: relpowp_imp_rtranclp)
qed

theorem loop_reachable_icons_wf_witness:
  "icons_wf empty_world \<and>
   (\<exists>s. (loop_step no_arial_env)\<^sup>*\<^sup>* (loop_start empty_world) s \<and> final s \<and> icons_wf (cur s))"
proof -
  have wf: "icons_wf empty_world" by (simp add: icons_wf_def empty_world_def)
  obtain s where "(loop_step no_arial_env)\<^sup>*\<^sup>* (loop_start empty_world) s" "final s"
    using loop_reaches_final by blast
  with wf loop_reachable_icons_wf [OF wf] show ?thesis by blast
qed

theorem render_icon_border_witness:
  "\<exists>img. render_icon no_arial_env 16 = Inr img
         \<and> getpixel img 0 15 = Inr background \<and> getpixel img 15 15 = Inr background
         \<and> getpixel img 15 0 = Inr background"
proof -
  obtain img where img: "render_icon no_arial_env 16 = Inr img" using no_arial_render [of 16] by auto
  have "getpixel img 0 15 = Inr background \<and> getpixel img (16 - 1) 15 = Inr background
        \<and> getpixel img 15 0 = Inr background \<and> getpixel img 15 (16 - 1) = Inr background"
    by (rule render_icon_border [OF img no_arial_glyph [symmetric] wf_u_glyph]) (simp_all add: u_glyph_def)
  with img show ?thesis by auto
qed

lemma no_arial_main_returns: "\<exists>w'. main no_arial_env empty_world = Returned w'"
proof -
  have ok: "\<forall>sz \<in> set sizes. icon_ok no_arial_env sz" by code_simp
  show ?thesis using create_all_Returned [OF ok, of empty_world] by (auto simp: main_def)
qed

theorem main_log_faithful_witness:
  "log_ok empty_world \<and> (\<exists>w'. main no_arial_env empty_world = Returned w' \<and> log_ok w')"
proof -
  have wf: "log_ok empty_world" by (simp add: log_ok_def empty_world_def)
  obtain w' where r: "main no_arial_env empty_world = Returned w'" using no_arial_main_returns by blast
  have "log_ok w'" using main_log_faithful [OF wf, of no_arial_env w' "OSError ''''"] r by simp
  with wf r show ?thesis by blast
qed

theorem main_report_witness:
  "\<exists>w'. main no_arial_env empty_world = Returned w'
        \<and> map parse_confirmation (stdout w') = [Some (''icon16.png'', 16), Some (''icon32.png'', 32),
                                                Some (''icon48.png'', 48), Some (''icon128.png'', 128)]"
proof -
  obtain w' where r: "main no_arial_env empty_world = Returned w'" using no_arial_main_returns by blast
  have names: "map (\<lambda>sz. Some (icon_filename sz, sz)) sizes
      = [Some (''icon16.png'', 16), Some (''icon32.png'', 32), Some (''icon48.png'', 48), Some (''icon128.png'', 128)]"
    by code_simp
  from r main_report [OF r] names show ?thesis by (auto simp: empty_world_def)
qed

theorem run_events_save_then_print_witness:
  "\<exists>xs. outcome_val (run_events no_arial_env [16]) = concat (map (\<lambda>(sz, img). save_print sz img) xs)
     \<and> (\<forall>(sz, img) \<in> set xs. render_icon no_arial_env sz = Inr img) \<and> map fst xs = [16]"
proof -
  obtain img where img: "render_icon no_arial_env 16 = Inr img" using no_arial_render [of 16] by auto
  have we: "write_error no_arial_env (icon_filename 16) = None" by (simp add: no_arial_env_def)
  have ret: "run_events no_arial_env [16] = Returned (save_print 16 img)"
    by (simp add: icon_events_def img we save_print_def render_icon_empty [OF img])
  from run_events_save_then_print [of no_arial_env "[16]"] ret show ?thesis by auto
qed

lemma no_arial_obj_run:
  "\<exists>h' w' im. create_icon_obj no_arial_env 16 ''icon16.png'' h empty_world = Inr (h', w')
           \<and> render_icon no_arial_env 16 = Inr im"
proof -
  obtain im where im: "render_icon no_arial_env 16 = Inr im" using no_arial_render [of 16] by auto
  have we: "write_error no_arial_env ''icon16.png'' = None" by (simp add: no_arial_env_def)
  show ?thesis using im we by (auto simp: create_icon_obj_Inr)
qed

theorem create_icon_obj_aliasing_witness:
  "\<exists>h' w' im. create_icon_obj no_arial_env 16 ''icon16.png'' empty_heap empty_world = Inr (h', w')
      \<and> objs h' 1 = Some (DrawObj 0) \<and> objs h' 0 = Some (ImageObj im) \<and> files w' ''icon16.png'' = Some im"
proof -
  obtain h' w' where r: "create_icon_obj no_arial_env 16 ''icon16.png'' empty_heap empty_world = Inr (h', w')"
    using no_arial_obj_run by blast
  from create_icon_obj_aliasing [OF r] r show ?thesis by (auto simp: empty_heap_def)
qed

theorem create_icon_obj_frame_witness:
  "wf_heap one_object_heap \<and>
   (\<exists>h' w'. create_icon_obj no_arial_env 16 ''icon16.png'' one_object_heap empty_world = Inr (h', w')
      \<and> wf_heap h' \<and> lim h' = 3 \<and> objs h' 0 = Some (ImageObj (blank_icon 0)))"
proof -
  have wf: "wf_heap one_object_heap" by (simp add: wf_heap_def one_object_heap_def)
  obtain h' w' where r: "create_icon_obj no_arial_env 16 ''icon16.png'' one_object_heap empty_world = Inr (h', w')"
    using no_arial_obj_run by blast
  from create_icon_obj_frame [OF wf r] r wf show ?thesis by (auto simp: one_object_heap_def)
qed

lemma closed_stdout_first_icon:
  "\<exists>img. render_icon closed_stdout_env 16 = Inr img
     \<and> main_io closed_stdout_env empty_world
         = Raised (OSError ''Broken pipe'') (empty_world\<lparr>files := (files empty_world)(''icon16.png'' \<mapsto> img)\<rparr>)"
proof -
  have name: "icon_filename 16 = ''icon16.png''" by code_simp
  have we: "write_error closed_stdout_env (icon_filename 16) = None"
    by (simp add: closed_stdout_env_def no_arial_env_def)
  have pe: "print_error closed_stdout_env (confirmation (icon_filename 16) 16) = Some (OSError ''Broken pipe'')"
    by (simp add: closed_stdout_env_def)
  from main_io_first_print_fails [OF we pe, of empty_world] show ?thesis by (simp add: name)
qed

theorem main_io_first_print_fails_witness:
  "write_error closed_stdout_env (icon_filename 16) = None
   \<and> print_error closed_stdout_env (confirmation (icon_filename 16) 16) = Some (OSError ''Broken pipe'')
   \<and> (\<exists>img. main_io closed_stdout_env empty_world
              = Raised (OSError ''Broken pipe'') \<lparr>files = [''icon16.png'' \<mapsto> img], stdout = []\<rparr>)"
proof -
  have name: "icon_filename 16 = ''icon16.png''" by code_simp
  have we: "write_error closed_stdout_env (icon_filename 16) = None"
    by (simp add: closed_stdout_env_def no_arial_env_def)
  have pe: "print_error closed_stdout_env (confirmation (icon_filename 16) 16) = Some (OSError ''Broken pipe'')"
    by (simp add: closed_stdout_env_def)
  from main_io_first_print_fails [OF we pe, of empty_world] we pe show ?thesis
    by (auto simp: name empty_world_def)
qed

theorem create_icon_io_raised_witness:
  "\<exists>w'. create_icon_io closed_stdout_env 16 ''icon16.png'' empty_world = Raised (OSError ''Broken pipe'') w'
      \<and> stdout w' = [] \<and> (\<exists>img. files w' = [''icon16.png'' \<mapsto> img])"
proof -
  obtain img where img: "render_icon closed_stdout_env 16 = Inr img"
    using render_icon_eq [of closed_stdout_env 16] by auto
  have we: "write_error closed_stdout_env ''icon16.png'' = None"
    by (simp add: closed_stdout_env_def no_arial_env_def)
  have pe: "print_error closed_stdout_env (confirmation ''icon16.png'' 16) = Some (OSError ''Broken pipe'')"
    by (simp add: closed_stdout_env_def)
  have r: "create_icon_io closed_stdout_env 16 ''icon16.png'' empty_world
           = Raised (OSError ''Broken pipe'') (empty_world\<lparr>files := [''icon16.png'' \<mapsto> img]\<rparr>)"
    by (simp add: create_icon_io_def img save_png_def we print_line_def pe empty_world_def
                  render_icon_empty [OF img])
  from create_icon_io_raised [OF r] r show ?thesis by (auto simp: empty_world_def)
qed

theorem main_io_log_faithful_witness:
  "log_ok empty_world \<and>
   (\<exists>w'. main_io closed_stdout_env empty_world = Raised (OSError ''Broken pipe'') w' \<and> log_ok w')"
proof -
  have wf: "log_ok empty_world" by (simp add: log_ok_def empty_world_def)
  obtain img where r: "main_io closed_stdout_env empty_world
         = Raised (OSError ''Broken pipe'') (empty_world\<lparr>files := (files empty_world)(''icon16.png'' \<mapsto> img)\<rparr>)"
    using closed_stdout_first_icon by blast
  from main_io_log_faithful [OF wf] r wf show ?thesis by blast
qed

theorem text_origin_floor_witness:
  "text_origin 16 (17, 5) = (-1, 5) \<and> (-1::int) < 0 \<and> (16::int) \<le> -1 + 17"
proof -
  have o: "text_origin 16 (17, 5) = (-1, 5)" by (simp add: text_origin_def)
  from text_origin_floor [OF o] o show ?thesis by simp
qed

theorem main_obj_frame_witness:
  "wf_heap empty_heap \<and>
   (\<exists>h' w'. main_obj no_arial_env empty_heap empty_world = Returned (h', w') \<and> wf_heap h' \<and> lim h' = 8)"
proof -
  have wf: "wf_heap empty_heap" by (simp add: wf_heap_def empty_heap_def)
  obtain w' where r: "main no_arial_env empty_world = Returned w'" using no_arial_main_returns by blast
  have "map_outcome snd (main_obj no_arial_env empty_heap empty_world) = Returned w'"
    using create_all_obj_refines [of no_arial_env sizes empty_heap empty_world] r by (simp add: main_obj_def main_def)
  then obtain h' where run: "main_obj no_arial_env empty_heap empty_world = Returned (h', w')"
    by (cases "main_obj no_arial_env empty_heap empty_world") auto
  from main_obj_frame [OF wf run] wf run show ?thesis by (auto simp: empty_heap_def)
qed

end
